theory Spec2Isabelle
  imports Complex_Main "HOL-Library.Multiset"
begin

section \<open>Strings and buffers of the runtime\<close>

text \<open>
  The handler is JavaScript running on Node. Text is held here as a \<^typ>\<open>string\<close> of
  bytes: the UTF-8 form of the JavaScript string. Splitting on a space, comparing with
  \<open>===\<close> and concatenating agree on both forms, and \<open>Buffer.from(str)\<close> (UTF-8 is the
  default encoding) is the identity on this form. The functions of this section are not
  code of the repository; they are the runtime's \<open>Buffer\<close> and \<open>String\<close> operations that
  \<open>main.js\<close> calls, written out so that the handler can be evaluated.
\<close>

text \<open>\<open>buf.toString('base64')\<close>: the standard alphabet, padded with \<open>=\<close>.\<close>

definition b64char :: "nat \<Rightarrow> char" where
  "b64char n =
     (if n < 26 then char_of (65 + n)
      else if n < 52 then char_of (71 + n)
      else if n < 62 then char_of (n - 4)
      else if n = 62 then CHR ''+''
      else CHR ''/'')"

fun sextets :: "nat list \<Rightarrow> nat list" where
  "sextets (a # b # c # rest) =
     [a div 4, (a mod 4) * 16 + b div 16, (b mod 16) * 4 + c div 64, c mod 64] @ sextets rest"
| "sextets [a, b] = [a div 4, (a mod 4) * 16 + b div 16, (b mod 16) * 4]"
| "sextets [a] = [a div 4, (a mod 4) * 16]"
| "sextets [] = []"

definition base64_encode :: "string \<Rightarrow> string" where
  "base64_encode bytes =
     map b64char (sextets (map of_char bytes))
       @ replicate ((3 - length bytes mod 3) mod 3) (CHR ''='')"

text \<open>
  \<open>Buffer.from(str, 'base64')\<close>: Node's decoder is lenient. It takes the standard and
  the URL-safe alphabet, skips every character that is in neither, stops at the first
  \<open>=\<close>, and drops the bits of an incomplete last group. The bytes of a character
  outside ASCII are in neither alphabet, as the character itself is for Node when it is
  one of those up to U+00FF, the ones that the value of an HTTP header can hold.
\<close>

definition unbase64 :: "char \<Rightarrow> nat option" where
  "unbase64 ch =
     (let c = (of_char ch :: nat) in
      if 65 \<le> c \<and> c \<le> 90 then Some (c - 65)
      else if 97 \<le> c \<and> c \<le> 122 then Some (c - 71)
      else if 48 \<le> c \<and> c \<le> 57 then Some (c + 4)
      else if c = 43 \<or> c = 45 then Some 62
      else if c = 47 \<or> c = 95 then Some 63
      else None)"

fun unsextets :: "nat list \<Rightarrow> nat list" where
  "unsextets (s0 # s1 # s2 # s3 # rest) =
     [s0 * 4 + s1 div 16, (s1 mod 16) * 16 + s2 div 4, (s2 mod 4) * 64 + s3] @ unsextets rest"
| "unsextets [s0, s1, s2] = [s0 * 4 + s1 div 16, (s1 mod 16) * 16 + s2 div 4]"
| "unsextets [s0, s1] = [s0 * 4 + s1 div 16]"
| "unsextets [s0] = []"
| "unsextets [] = []"

definition base64_decode :: "string \<Rightarrow> string" where
  "base64_decode str =
     map char_of (unsextets (List.map_filter unbase64 (takeWhile (\<lambda>c. c \<noteq> CHR ''='') str)))"

text \<open>
  \<open>buf.toString('utf8')\<close>: a well-formed UTF-8 sequence is kept, every maximal
  ill-formed part becomes one U+FFFD (bytes EF BF BD). \<open>utf8_step b bs\<close> looks at the
  sequence that starts with \<open>b\<close> and says whether it is well formed and how many of the
  bytes after \<open>b\<close> belong to it.
\<close>

definition in_range :: "char \<Rightarrow> nat \<Rightarrow> nat \<Rightarrow> bool" where
  "in_range c lo hi = (lo \<le> of_char c \<and> of_char c \<le> hi)"

definition utf8_tail :: "nat \<Rightarrow> nat \<Rightarrow> nat \<Rightarrow> string \<Rightarrow> bool \<times> nat" where
  "utf8_tail need lo hi bs =
     (case bs of
        [] \<Rightarrow> (False, 0)
      | c1 # r1 \<Rightarrow>
          if \<not> in_range c1 lo hi then (False, 0)
          else if need = 1 then (True, 1)
          else (case r1 of
                  [] \<Rightarrow> (False, 1)
                | c2 # r2 \<Rightarrow>
                    if \<not> in_range c2 0x80 0xBF then (False, 1)
                    else if need = 2 then (True, 2)
                    else (case r2 of
                            [] \<Rightarrow> (False, 2)
                          | c3 # r3 \<Rightarrow>
                              if in_range c3 0x80 0xBF then (True, 3) else (False, 2))))"

definition utf8_step :: "char \<Rightarrow> string \<Rightarrow> bool \<times> nat" where
  "utf8_step b bs =
     (let n = (of_char b :: nat) in
      if n < 0x80 then (True, 0)
      else if 0xC2 \<le> n \<and> n \<le> 0xDF then utf8_tail 1 0x80 0xBF bs
      else if 0xE0 \<le> n \<and> n \<le> 0xEF then
        utf8_tail 2 (if n = 0xE0 then 0xA0 else 0x80) (if n = 0xED then 0x9F else 0xBF) bs
      else if 0xF0 \<le> n \<and> n \<le> 0xF4 then
        utf8_tail 3 (if n = 0xF0 then 0x90 else 0x80) (if n = 0xF4 then 0x8F else 0xBF) bs
      else (False, 0))"

definition replacement_char :: string where
  "replacement_char = [CHR 0xEF, CHR 0xBF, CHR 0xBD]"

fun utf8_toString :: "string \<Rightarrow> string" where
  "utf8_toString [] = []"
| "utf8_toString (b # bs) =
     (case utf8_step b bs of
        (valid, k) \<Rightarrow>
          (if valid then b # take k bs else replacement_char) @ utf8_toString (drop k bs))"

text \<open>
  \<open>str.split(' ')\<close>: the parts between single spaces; the empty string has one empty
  part, two spaces in a row have an empty part between them.
\<close>

fun split_on :: "char \<Rightarrow> string \<Rightarrow> string list" where
  "split_on d [] = [[]]"
| "split_on d (c # cs) =
     (if c = d then [] # split_on d cs
      else (case split_on d cs of
              [] \<Rightarrow> [[c]]
            | p # ps \<Rightarrow> (c # p) # ps))"

section \<open>Configuration (\<open>main.js\<close>, lines 3 to 57)\<close>

text \<open>
  The values read from \<open>process.env\<close>. The two log-sink variables are optional; the
  others are required by the deployment and are strings.
\<close>

record config =
  BETTERSTACK_LOGS_BEARER_TOKEN :: "string option"
  BETTERSTACK_LOGS_HOST :: "string option"
  GARMIN_INBOUND_API_HOST :: string
  GARMIN_INBOUND_API_USER :: string
  GARMIN_INBOUND_API_PASS :: string
  REQUEST_AUTH_TOKEN :: string
  TRACKING_SENDER_DEVICE_IMEI :: string
  TRACKING_SENDER_INREACH_ADDRESS :: string
  TRACKING_RECEIVER_DEVICE_IMEI :: string

definition PositionReport :: int where "PositionReport = 0"
definition StartTrack :: int where "StartTrack = 10"
definition StopTrack :: int where "StopTrack = 12"

definition trackingMessageCodes :: "int set" where
  "trackingMessageCodes = {PositionReport, StartTrack, StopTrack}"

definition messageCodeToReceiverText :: "int \<rightharpoonup> string" where
  "messageCodeToReceiverText =
     [PositionReport \<mapsto> ''Location Update'',
      StartTrack \<mapsto> ''Tracking Started'',
      StopTrack \<mapsto> ''Tracking Stopped'']"

definition inboundApiAuth :: "config \<Rightarrow> string" where
  "inboundApiAuth cfg =
     base64_encode (GARMIN_INBOUND_API_USER cfg @ '':'' @ GARMIN_INBOUND_API_PASS cfg)"

section \<open>Data model (the type declarations of \<open>main.js\<close>, lines 293 to 452)\<close>

text \<open>
  The records follow the JSDoc declarations of \<open>main.js\<close>: an event is an object
  with the fields of \<open>IPCOutboundEvent\<close>, a header is a string. The declarations are
  comments, and nothing checks the body of a request against them. Two departures
  from them make the handler read a property of \<open>undefined\<close> or of \<open>null\<close>, and these
  are in the model: the field \<open>point\<close> of an event may be missing, and an element of
  the batch may be \<open>null\<close> instead of an event. Time stamps, message codes and flags
  are integers.
  Coordinates, altitude, course and speed are numbers with a fractional part; they
  are taken as the real numbers they stand for, so that \<open>=== 0\<close> is equality with 0
  (it holds of \<open>-0\<close> too).
\<close>

record IPCOutboundEventPoint =
  latitude :: real
  longitude :: real
  altitude :: real
  gpsFix :: int
  course :: real
  speed :: real

record IPCOutboundEventStatus =
  autonomous :: int
  lowBattery :: int
  intervalChange :: int
  resetDetected :: int

record IPCOutboundEvent =
  imei :: string
  messageCode :: int
  freeText :: string
  timeStamp :: int
  pingbackReceived :: int
  pingbackResponded :: int
  addresses :: "string list"
  point :: "IPCOutboundEventPoint option"
  status :: IPCOutboundEventStatus
  payload :: string

text \<open>
  Arrays are objects with an identity: the field \<open>Events\<close> holds a reference, and the
  store maps a reference to the array's elements. \<open>Events\<close> may be absent
  (\<open>Partial<T>\<close>) or hold something that is not an array, which the handler checks with
  \<open>Array.isArray\<close>.
\<close>

datatype element = Null | Obj IPCOutboundEvent

type_synonym ref = nat

record store =
  cells :: "ref \<Rightarrow> element list"
  next_free :: ref

datatype events_field = EventsAbsent | EventsNotArray | EventsArray ref

record WebEventHTTP =
  headers :: "string \<rightharpoonup> string"
  http_method :: string
  path :: string

record InvocationEvent =
  http :: "WebEventHTTP option"
  Version :: "string option"
  Events :: events_field

record InvocationContext =
  activationId :: string
  apiHost :: string
  apiKey :: string
  deadline :: int
  functionName :: string
  functionVersion :: string
  getRemainingTimeInMillis :: int
  namespace :: string
  requestId :: string

record Coordinate =
  Latitude :: real
  Longitude :: real

record ReferencePoint =
  LocationType :: string
  Altitude :: real
  Speed :: real
  Course :: real
  Coordinate :: Coordinate

record IPCInboundSendMessage =
  Recipients :: "string list"
  Sender :: string
  Timestamp :: int
  Message :: string
  ReferencePoint :: ReferencePoint

section \<open>Outbound calls and their outcomes\<close>

text \<open>
  An exception value carries its \<open>message\<close>. A response of \<open>fetch\<close> has \<open>ok\<close>,
  \<open>status\<close> and the outcome of \<open>json()\<close>, which throws on a body that is not JSON; a
  parsed body is kept as its text.
\<close>

record JsError =
  message :: string

text \<open>What reading a property of \<open>undefined\<close> or of \<open>null\<close> throws, with the start of its message.\<close>

definition TypeError :: "string \<Rightarrow> JsError" where
  "TypeError v = \<lparr> message = ''Cannot read properties of '' @ v \<rparr>"

record Response =
  ok :: bool
  response_status :: int
  json :: "JsError + string"

datatype log_data =
  NoData
  | Rejected int string
  | Failed string

record LogContext =
  activation_id :: string
  log_apiHost :: string
  log_deadline :: int
  function_name :: string
  function_version :: string
  log_namespace :: string
  remaining_time :: int

record LogRecord =
  level_string :: string
  message_string :: string
  do_function_context :: LogContext
  do_function_event :: InvocationEvent
  log_extra :: log_data

datatype fetch_body =
  MessagesBody "IPCInboundSendMessage list"
  | LogBody LogRecord

record FetchRequest =
  fetch_url :: string
  fetch_method :: string
  fetch_headers :: "(string \<times> string) list"
  fetch_body :: fetch_body

text \<open>
  What the world outside answers: the outcome of each \<open>fetch\<close> (an exception or a
  response), the reading of \<open>Date.now()\<close>, and the runtime's conversion of a number to
  text in a template string.
\<close>

record runtime =
  fetch :: "FetchRequest \<Rightarrow> JsError + Response"
  dateNow :: int
  numberToString :: "real \<Rightarrow> string"

record http_result =
  statusCode :: int

text \<open>
  What is seen of an outbound call: the moment \<open>fetch\<close> is called, when the request is
  issued, and the moment its promise settles, with a response or with an exception.
  \<open>await fetch(req)\<close> gives both, one after the other, and its value is what the world
  outside answers to \<open>req\<close>: the caller goes on only when the call has settled.
\<close>

datatype io = Issued FetchRequest | Settled FetchRequest

definition await_fetch :: "runtime \<Rightarrow> FetchRequest \<Rightarrow> (JsError + Response) \<times> io list" where
  "await_fetch rt req = (fetch rt req, [Issued req, Settled req])"

fun issued :: "io list \<Rightarrow> FetchRequest list" where
  "issued [] = []"
| "issued (Issued req # t) = req # issued t"
| "issued (Settled req # t) = issued t"

text \<open>
  What one invocation does: the value the promise of \<open>main\<close> settles with (\<open>Inl\<close> is a
  rejection), what happened to its outbound calls, in order of time, and the store when
  it returns. The \<open>calls\<close> of an invocation are the requests it issued, in the order of
  issue.
\<close>

record outcome =
  returned :: "JsError + http_result"
  timeline :: "io list"
  store_after :: store

definition calls :: "outcome \<Rightarrow> FetchRequest list" where
  "calls out = issued (timeline out)"

section \<open>The handler (\<open>main.js\<close>, lines 84 to 291)\<close>

subsection \<open>\<open>isAuthorizedRequest\<close>, lines 154 to 170\<close>

definition authorization_header :: "InvocationEvent \<Rightarrow> string option" where
  "authorization_header event =
     (case http event of None \<Rightarrow> None | Some h \<Rightarrow> headers h ''authorization'')"

definition second_part :: "string \<Rightarrow> string option" where
  "second_part authorization =
     (case split_on (CHR '' '') authorization of
        p # encodedToken # ps \<Rightarrow> Some encodedToken
      | _ \<Rightarrow> None)"

definition isAuthorizedRequest :: "config \<Rightarrow> InvocationEvent \<Rightarrow> bool" where
  "isAuthorizedRequest cfg event =
     (case authorization_header event of
        None \<Rightarrow> False
      | Some authorization \<Rightarrow>
          if authorization = [] then False
          else (case second_part authorization of
                  None \<Rightarrow> False
                | Some encodedToken \<Rightarrow>
                    if encodedToken = [] then False
                    else utf8_toString (base64_decode encodedToken)
                           = REQUEST_AUTH_TOKEN cfg @ '':''))"

subsection \<open>\<open>forwardLocationUpdate\<close>, lines 183 to 215\<close>

text \<open>
  The function builds the message and hands the request to \<open>fetch\<close>, whose promise it
  returns. Its value here is that request; the call and the \<open>await\<close> of line 126 are
  in the body of the \<open>try\<close> block below.
\<close>

definition forwardLocationUpdate ::
  "config \<Rightarrow> runtime \<Rightarrow> string \<Rightarrow> IPCOutboundEventPoint \<Rightarrow> FetchRequest" where
  "forwardLocationUpdate cfg rt text pt =
     (let msg = \<lparr>
            Recipients = [TRACKING_RECEIVER_DEVICE_IMEI cfg],
            Sender = TRACKING_SENDER_INREACH_ADDRESS cfg,
            Timestamp = dateNow rt,
            Message = text @ '': lat '' @ numberToString rt (latitude pt)
                        @ '' lon '' @ numberToString rt (longitude pt),
            ReferencePoint = \<lparr>
              LocationType = ''GPSLocation'',
              Altitude = altitude pt,
              Speed = speed pt,
              Course = course pt,
              Coordinate = \<lparr> Latitude = latitude pt, Longitude = longitude pt \<rparr> \<rparr> \<rparr>
      in \<lparr> fetch_url = ''https://'' @ GARMIN_INBOUND_API_HOST cfg
                          @ ''/IPCInbound/V1/Messaging.svc/Message'',
            fetch_method = ''POST'',
            fetch_headers = [(''Authorization'', ''Basic '' @ inboundApiAuth cfg),
                             (''Content-Type'', ''application/json'')],
            fetch_body = MessagesBody [msg] \<rparr>)"

subsection \<open>\<open>log\<close> and \<open>getLogger\<close>, lines 223 to 291\<close>

text \<open>
  \<open>log\<close> returns at once when the sink is not configured (a variable that is unset or
  empty is falsy). Otherwise it issues one POST and swallows whatever \<open>fetch\<close> throws.
  The result is the way the promise settles and what happened to the call. The field
  \<open>dt\<close> of the record, the time of logging, is left out.
\<close>

definition log_js ::
  "config \<Rightarrow> runtime \<Rightarrow> string \<Rightarrow> log_data \<Rightarrow> string \<Rightarrow> InvocationEvent \<Rightarrow> InvocationContext
     \<Rightarrow> (JsError + unit) \<times> io list" where
  "log_js cfg rt msg data level event context =
     (case (BETTERSTACK_LOGS_HOST cfg, BETTERSTACK_LOGS_BEARER_TOKEN cfg) of
        (Some host, Some token) \<Rightarrow>
          if host = [] \<or> token = [] then (Inr (), [])
          else
            (let lg = \<lparr>
                   level_string = level,
                   message_string = msg,
                   do_function_context = \<lparr>
                     activation_id = activationId context,
                     log_apiHost = apiHost context,
                     log_deadline = deadline context,
                     function_name = functionName context,
                     function_version = functionVersion context,
                     log_namespace = namespace context,
                     remaining_time = getRemainingTimeInMillis context \<rparr>,
                   do_function_event = event,
                   log_extra = data \<rparr>;
                 req = \<lparr>
                   fetch_url = ''https://'' @ host,
                   fetch_method = ''POST'',
                   fetch_headers = [(''Authorization'', ''Bearer '' @ token),
                                    (''Content-Type'', ''application/json'')],
                   fetch_body = LogBody lg \<rparr>
             in (case await_fetch rt req of
                   (Inl err, t) \<Rightarrow> (Inr (), t)
                 | (Inr response, t) \<Rightarrow> (Inr (), t)))
      | _ \<Rightarrow> (Inr (), []))"

definition logger_debug ::
  "config \<Rightarrow> runtime \<Rightarrow> InvocationEvent \<Rightarrow> InvocationContext \<Rightarrow> string \<Rightarrow> log_data
     \<Rightarrow> (JsError + unit) \<times> io list" where
  "logger_debug cfg rt event context msg data = log_js cfg rt msg data ''debug'' event context"

definition logger_error ::
  "config \<Rightarrow> runtime \<Rightarrow> InvocationEvent \<Rightarrow> InvocationContext \<Rightarrow> string \<Rightarrow> log_data
     \<Rightarrow> (JsError + unit) \<times> io list" where
  "logger_error cfg rt event context msg data = log_js cfg rt msg data ''error'' event context"

subsection \<open>Event selection, lines 99 to 101\<close>

text \<open>
  The comparator \<open>(a, b) => a.timeStamp - b.timeStamp\<close>: it throws when one of the two
  elements is \<open>null\<close>.
\<close>

definition by_timeStamp :: "element \<Rightarrow> element \<Rightarrow> JsError + int" where
  "by_timeStamp a b =
     (case a of
        Null \<Rightarrow> Inl (TypeError ''null'')
      | Obj x \<Rightarrow>
          (case b of
             Null \<Rightarrow> Inl (TypeError ''null'')
           | Obj y \<Rightarrow> Inr (timeStamp x - timeStamp y)))"

text \<open>
  \<open>arr.sort(cmp)\<close> is stable (ECMAScript 2019): elements that compare equal keep
  their order. With a comparator that is a consistent order, as a difference of
  integers is, the sorted array is determined; it is written here as an insertion
  sort, which places an element before the first one that it does not exceed. What
  the comparator throws, \<open>sort\<close> throws. An array of one element is sorted without a
  call of the comparator; in a longer array every element is compared at least once.
\<close>

fun insert_by :: "('a \<Rightarrow> 'a \<Rightarrow> JsError + int) \<Rightarrow> 'a \<Rightarrow> 'a list \<Rightarrow> JsError + 'a list" where
  "insert_by cmp x [] = Inr [x]"
| "insert_by cmp x (y # ys) =
     (case cmp x y of
        Inl err \<Rightarrow> Inl err
      | Inr c \<Rightarrow>
          if c \<le> 0 then Inr (x # y # ys)
          else (case insert_by cmp x ys of
                  Inl err \<Rightarrow> Inl err
                | Inr zs \<Rightarrow> Inr (y # zs)))"

fun js_sort :: "('a \<Rightarrow> 'a \<Rightarrow> JsError + int) \<Rightarrow> 'a list \<Rightarrow> JsError + 'a list" where
  "js_sort cmp [] = Inr []"
| "js_sort cmp (x # xs) =
     (case js_sort cmp xs of
        Inl err \<Rightarrow> Inl err
      | Inr ys \<Rightarrow> insert_by cmp x ys)"

text \<open>
  \<open>[...arr]\<close> allocates a new array with the same elements; \<open>sort\<close> orders an array in
  place, and leaves it as it is here when the comparator throws (the array is then
  the copy, which nothing reads again); \<open>pop\<close> removes and returns the last element,
  or returns \<open>undefined\<close> on an empty array.
\<close>

definition spread_copy :: "store \<Rightarrow> ref \<Rightarrow> ref \<times> store" where
  "spread_copy s r =
     (next_free s,
      s\<lparr> cells := (cells s)(next_free s := cells s r), next_free := Suc (next_free s) \<rparr>)"

definition array_sort ::
  "store \<Rightarrow> ref \<Rightarrow> (element \<Rightarrow> element \<Rightarrow> JsError + int) \<Rightarrow> JsError + store" where
  "array_sort s r cmp =
     (case js_sort cmp (cells s r) of
        Inl err \<Rightarrow> Inl err
      | Inr sorted_elements \<Rightarrow> Inr (s\<lparr> cells := (cells s)(r := sorted_elements) \<rparr>))"

definition array_pop :: "store \<Rightarrow> ref \<Rightarrow> element option \<times> store" where
  "array_pop s r =
     (case cells s r of
        [] \<Rightarrow> (None, s)
      | x # xs \<Rightarrow> (Some (last (x # xs)), s\<lparr> cells := (cells s)(r := butlast (x # xs)) \<rparr>))"

text \<open>
  The expression of lines 99 to 101: its value is what \<open>pop\<close> returns, unless \<open>sort\<close>
  throws.
\<close>

definition select_outboundEvent :: "store \<Rightarrow> ref \<Rightarrow> (JsError + element option) \<times> store" where
  "select_outboundEvent s r =
     (case spread_copy s r of
        (c, s1) \<Rightarrow>
          (case array_sort s1 c by_timeStamp of
             Inl err \<Rightarrow> (Inl err, s1)
           | Inr s2 \<Rightarrow>
               (case array_pop s2 c of
                  (outboundEvent, s3) \<Rightarrow> (Inr outboundEvent, s3))))"

subsection \<open>\<open>main\<close>, lines 84 to 146\<close>

definition receiverText :: "int \<Rightarrow> string" where
  "receiverText code =
     (case messageCodeToReceiverText code of
        None \<Rightarrow> ''Location Update''
      | Some t \<Rightarrow> if t = [] then ''Location Update'' else t)"

text \<open>The body of the \<open>try\<close> block, lines 126 to 138: \<open>Inl\<close> is what it throws.\<close>

definition try_forward ::
  "config \<Rightarrow> runtime \<Rightarrow> InvocationEvent \<Rightarrow> InvocationContext \<Rightarrow> int \<Rightarrow> IPCOutboundEventPoint
     \<Rightarrow> (JsError + unit) \<times> io list" where
  "try_forward cfg rt event context code pt =
     (let req = forwardLocationUpdate cfg rt (receiverText code) pt in
      case await_fetch rt req of
        (Inl err, t) \<Rightarrow> (Inl err, t)
      | (Inr result, t) \<Rightarrow>
          if ok result then (Inr (), t)
          else (case json result of
                  Inl err \<Rightarrow> (Inl err, t)
                | Inr error \<Rightarrow>
                    (case logger_error cfg rt event context ''IPC Inbound request rejected''
                            (Rejected (response_status result) error) of
                       (r, cs) \<Rightarrow> (r, t @ cs))))"

text \<open>
  \<open>main\<close> itself. Each early \<open>return\<close> is a branch; the test of line 93 is the test
  on the method followed by the case on \<open>Events\<close>. The test \<open>!outboundEvent\<close> of
  line 103 holds of \<open>undefined\<close> and of \<open>null\<close>. Two places before the \<open>try\<close> block
  of line 125 can throw a \<open>TypeError\<close> that nothing catches, and then the promise is
  rejected: the comparator of line 100 on a \<open>null\<close> element, and line 121, which
  reads \<open>point.latitude\<close>, when \<open>point\<close> is \<open>undefined\<close>. An
  exception that escapes the \<open>try\<close> block goes to the \<open>catch\<close> block, and one that
  would escape an awaited logger call rejects the promise.
\<close>

definition main :: "config \<Rightarrow> runtime \<Rightarrow> store \<Rightarrow> InvocationEvent \<Rightarrow> InvocationContext \<Rightarrow> outcome" where
  "main cfg rt s event context =
     (if \<not> isAuthorizedRequest cfg event then
        \<lparr> returned = Inr \<lparr> statusCode = 200 \<rparr>, timeline = [], store_after = s \<rparr>
      else if map_option http_method (http event) \<noteq> Some ''POST'' then
        \<lparr> returned = Inr \<lparr> statusCode = 200 \<rparr>, timeline = [], store_after = s \<rparr>
      else
        (case Events event of
           EventsArray r \<Rightarrow>
             (case logger_debug cfg rt event context ''IPC Outbound request received'' NoData of
                (Inl err, c1) \<Rightarrow> \<lparr> returned = Inl err, timeline = c1, store_after = s \<rparr>
              | (Inr u, c1) \<Rightarrow>
                  (case select_outboundEvent s r of
                     (Inl err, s') \<Rightarrow>
                       \<lparr> returned = Inl err, timeline = c1, store_after = s' \<rparr>
                   | (Inr None, s') \<Rightarrow>
                       \<lparr> returned = Inr \<lparr> statusCode = 200 \<rparr>, timeline = c1, store_after = s' \<rparr>
                   | (Inr (Some Null), s') \<Rightarrow>
                       \<lparr> returned = Inr \<lparr> statusCode = 200 \<rparr>, timeline = c1, store_after = s' \<rparr>
                   | (Inr (Some (Obj outboundEvent)), s') \<Rightarrow>
                       if imei outboundEvent \<noteq> TRACKING_SENDER_DEVICE_IMEI cfg then
                         \<lparr> returned = Inr \<lparr> statusCode = 200 \<rparr>, timeline = c1, store_after = s' \<rparr>
                       else if messageCode outboundEvent \<notin> trackingMessageCodes then
                         \<lparr> returned = Inr \<lparr> statusCode = 200 \<rparr>, timeline = c1, store_after = s' \<rparr>
                       else
                         (case point outboundEvent of
                            None \<Rightarrow>
                              \<lparr> returned = Inl (TypeError ''undefined''), timeline = c1, store_after = s' \<rparr>
                          | Some pt \<Rightarrow>
                              if latitude pt = 0 \<and> longitude pt = 0 then
                                \<lparr> returned = Inr \<lparr> statusCode = 200 \<rparr>,
                                  timeline = c1, store_after = s' \<rparr>
                              else
                                (case try_forward cfg rt event context
                                        (messageCode outboundEvent) pt of
                                   (Inr u', c2) \<Rightarrow>
                                     \<lparr> returned = Inr \<lparr> statusCode = 200 \<rparr>,
                                       timeline = c1 @ c2, store_after = s' \<rparr>
                                 | (Inl err, c2) \<Rightarrow>
                                     (case logger_error cfg rt event context
                                             ''Failed to send IPC Inbound request''
                                             (Failed (if message err = [] then ''Unknown error''
                                                      else message err)) of
                                        (Inl err', c3) \<Rightarrow>
                                          \<lparr> returned = Inl err',
                                            timeline = c1 @ c2 @ c3, store_after = s' \<rparr>
                                      | (Inr u', c3) \<Rightarrow>
                                          \<lparr> returned = Inr \<lparr> statusCode = 200 \<rparr>,
                                            timeline = c1 @ c2 @ c3, store_after = s' \<rparr>)))))
         | _ \<Rightarrow> \<lparr> returned = Inr \<lparr> statusCode = 200 \<rparr>, timeline = [], store_after = s \<rparr>))"

subsection \<open>Derived notions used in the statements\<close>

text \<open>A forward call is a request that carries messages, as against a log record.\<close>

definition is_forward :: "FetchRequest \<Rightarrow> bool" where
  "is_forward req = (case fetch_body req of MessagesBody ms \<Rightarrow> True | LogBody lg \<Rightarrow> False)"

text \<open>
  The three guards of lines 109 to 123, read as one condition on the selected event:
  it is forwarded when none of them returns early.
\<close>

definition passes_filters :: "config \<Rightarrow> IPCOutboundEvent \<Rightarrow> bool" where
  "passes_filters cfg e =
     (imei e = TRACKING_SENDER_DEVICE_IMEI cfg
      \<and> messageCode e \<in> trackingMessageCodes
      \<and> (case point e of
           None \<Rightarrow> False
         | Some pt \<Rightarrow> \<not> (latitude pt = 0 \<and> longitude pt = 0)))"

text \<open>The selected event gets past the guards of lines 110 and 115 and has no \<open>point\<close>.\<close>

definition point_missing :: "config \<Rightarrow> IPCOutboundEvent \<Rightarrow> bool" where
  "point_missing cfg e =
     (imei e = TRACKING_SENDER_DEVICE_IMEI cfg
      \<and> messageCode e \<in> trackingMessageCodes
      \<and> point e = None)"

text \<open>
  The debug record of line 97, told by its level and message. A forward call has
  failed when \<open>fetch\<close> threw or the response is not \<open>ok\<close>. The error record of a failed
  forward call \<open>f\<close> carries what became of \<open>f\<close>: the message of the exception (of
  \<open>fetch\<close>, or of \<open>json()\<close> on a response that is not \<open>ok\<close>), or the status and the
  body of the response that is not \<open>ok\<close> (lines 131 to 142).
\<close>

definition is_debug_record :: "FetchRequest \<Rightarrow> bool" where
  "is_debug_record req =
     (case fetch_body req of
        MessagesBody ms \<Rightarrow> False
      | LogBody lg \<Rightarrow>
          level_string lg = ''debug'' \<and> message_string lg = ''IPC Outbound request received'')"

definition forward_failed :: "runtime \<Rightarrow> FetchRequest \<Rightarrow> bool" where
  "forward_failed rt f =
     (case fetch rt f of
        Inl err \<Rightarrow> True
      | Inr result \<Rightarrow> \<not> ok result)"

definition thrown :: "JsError \<Rightarrow> log_data" where
  "thrown err = Failed (if message err = [] then ''Unknown error'' else message err)"

definition reports_failure :: "runtime \<Rightarrow> FetchRequest \<Rightarrow> FetchRequest \<Rightarrow> bool" where
  "reports_failure rt f e =
     (case fetch_body e of
        MessagesBody ms \<Rightarrow> False
      | LogBody lg \<Rightarrow>
          level_string lg = ''error''
          \<and> (case fetch rt f of
               Inl err \<Rightarrow>
                 message_string lg = ''Failed to send IPC Inbound request''
                 \<and> log_extra lg = thrown err
             | Inr result \<Rightarrow>
                 \<not> ok result
                 \<and> (case json result of
                      Inl err \<Rightarrow>
                        message_string lg = ''Failed to send IPC Inbound request''
                        \<and> log_extra lg = thrown err
                    | Inr body \<Rightarrow>
                        message_string lg = ''IPC Inbound request rejected''
                        \<and> log_extra lg = Rejected (response_status result) body)))"

text \<open>
  Calls are made one at a time when every request that is issued settles before anything
  else happens, and so before the next one is issued.
\<close>

fun one_at_a_time :: "io list \<Rightarrow> bool" where
  "one_at_a_time [] = True"
| "one_at_a_time (Issued req # Settled req' # t) = (req = req' \<and> one_at_a_time t)"
| "one_at_a_time (x # t) = False"

text \<open>The calls of the \<open>catch\<close> block, lines 139 to 143, given how the \<open>try\<close> block ended.\<close>

definition catch_calls ::
  "config \<Rightarrow> runtime \<Rightarrow> InvocationEvent \<Rightarrow> InvocationContext \<Rightarrow> (JsError + unit)
     \<Rightarrow> io list" where
  "catch_calls cfg rt event ctx r =
     (case r of
        Inr u \<Rightarrow> []
      | Inl err \<Rightarrow>
          snd (logger_error cfg rt event ctx ''Failed to send IPC Inbound request''
                 (Failed (if message err = [] then ''Unknown error'' else message err))))"

section \<open>Sample invocations\<close>

text \<open>
  A deployment with the log sink configured and the auth token \<open>tok\<close>; the gateway's
  header is \<open>Basic dG9rOg==\<close>, the base64 form of \<open>tok:\<close>.
\<close>

definition sample_config :: config where
  "sample_config = \<lparr>
     BETTERSTACK_LOGS_BEARER_TOKEN = Some ''secret'',
     BETTERSTACK_LOGS_HOST = Some ''logs.example'',
     GARMIN_INBOUND_API_HOST = ''inbound.example'',
     GARMIN_INBOUND_API_USER = ''user'',
     GARMIN_INBOUND_API_PASS = ''pass'',
     REQUEST_AUTH_TOKEN = ''tok'',
     TRACKING_SENDER_DEVICE_IMEI = ''300000000000001'',
     TRACKING_SENDER_INREACH_ADDRESS = ''rider@inreach.garmin.com'',
     TRACKING_RECEIVER_DEVICE_IMEI = ''300000000000002'' \<rparr>"

definition sample_context :: InvocationContext where
  "sample_context = \<lparr>
     activationId = ''a1'', apiHost = ''https://faas.example'', apiKey = ''k'',
     deadline = 1700000003000, functionName = ''tracking-forwarder'',
     functionVersion = ''0.0.1'', getRemainingTimeInMillis = 3000,
     namespace = ''fn-1'', requestId = ''r1'' \<rparr>"

definition sample_point :: IPCOutboundEventPoint where
  "sample_point = \<lparr>
     latitude = 10, longitude = 20, altitude = 1500, gpsFix = 2, course = 90, speed = 25 \<rparr>"

definition sample_status :: IPCOutboundEventStatus where
  "sample_status = \<lparr> autonomous = 0, lowBattery = 0, intervalChange = 0, resetDetected = 0 \<rparr>"

text \<open>A position report of the tracked device at time 100, and at time 200 a message of another device.\<close>

definition sample_report :: IPCOutboundEvent where
  "sample_report = \<lparr>
     imei = ''300000000000001'', messageCode = 0, freeText = [], timeStamp = 100,
     pingbackReceived = 0, pingbackResponded = 0, addresses = [],
     point = Some sample_point, status = sample_status, payload = [] \<rparr>"

definition sample_other :: IPCOutboundEvent where
  "sample_other = \<lparr>
     imei = ''300000000000009'', messageCode = 0, freeText = [], timeStamp = 200,
     pingbackReceived = 0, pingbackResponded = 0, addresses = [],
     point = Some sample_point, status = sample_status, payload = [] \<rparr>"

text \<open>
  An event of the tracked device with no \<open>point\<close>, the body
  \<open>{ Events: [{ imei: "300000000000001", messageCode: 0, timeStamp: 1 }] }\<close> with the
  fields that the handler does not read filled in.
\<close>

definition sample_pointless :: IPCOutboundEvent where
  "sample_pointless = \<lparr>
     imei = ''300000000000001'', messageCode = 0, freeText = [], timeStamp = 1,
     pingbackReceived = 0, pingbackResponded = 0, addresses = [],
     point = None, status = sample_status, payload = [] \<rparr>"

text \<open>
  The store of the samples: array 0 holds the report alone, array 1 the report and then
  the later message of the other device, array 2 is empty, array 3 holds the event
  without a point, array 4 the report and then \<open>null\<close>, array 5 \<open>null\<close> alone.
\<close>

definition sample_store :: store where
  "sample_store = \<lparr>
     cells = (\<lambda>r. if r = 0 then [Obj sample_report]
                  else if r = 1 then [Obj sample_report, Obj sample_other]
                  else if r = 3 then [Obj sample_pointless]
                  else if r = 4 then [Obj sample_report, Null]
                  else if r = 5 then [Null]
                  else []),
     next_free = 6 \<rparr>"

definition sample_http :: "string \<Rightarrow> string \<Rightarrow> WebEventHTTP" where
  "sample_http auth m = \<lparr>
     headers = [''authorization'' \<mapsto> auth], http_method = m, path = [] \<rparr>"

definition sample_event :: "events_field \<Rightarrow> InvocationEvent" where
  "sample_event evs = \<lparr>
     http = Some (sample_http ''Basic dG9rOg=='' ''POST''), Version = Some ''2.0'', Events = evs \<rparr>"

text \<open>A runtime whose network is down: every \<open>fetch\<close> throws. It prints 10 and 20 in decimal.\<close>

definition sample_numberToString :: "real \<Rightarrow> string" where
  "sample_numberToString x = (if x = 10 then ''10'' else if x = 20 then ''20'' else ''0'')"

definition sample_runtime :: runtime where
  "sample_runtime = \<lparr>
     fetch = (\<lambda>req. Inl \<lparr> message = ''fetch failed'' \<rparr>),
     dateNow = 1700000000000,
     numberToString = sample_numberToString \<rparr>"

section \<open>Base64: decoding undoes encoding\<close>


lemma hi_nibble: "(b::nat) < 256 \<Longrightarrow> b div 16 < 16"
  by (simp add: less_mult_imp_div_less)

lemma hi_pair: "(c::nat) < 256 \<Longrightarrow> c div 64 < 4"
  by (simp add: less_mult_imp_div_less)

lemma group4:
  fixes a b c :: nat
  assumes "b < 256" "c < 256"
  shows "a div 4 * 4 + (a mod 4 * 16 + b div 16) div 16 = a"
    and "(a mod 4 * 16 + b div 16) mod 16 * 16 + (b mod 16 * 4 + c div 64) div 4 = b"
    and "(b mod 16 * 4 + c div 64) mod 4 * 64 + c mod 64 = c"
  using hi_nibble [OF assms(1)] hi_pair [OF assms(2)] by simp_all

lemma group3:
  fixes a b :: nat
  assumes "b < 256"
  shows "(a mod 4 * 16 + b div 16) mod 16 * 16 + (b mod 16 * 4) div 4 = b"
  using hi_nibble [OF assms] by simp

lemma group2:
  fixes a :: nat
  shows "a div 4 * 4 + (a mod 4 * 16) div 16 = a"
  by simp

lemma unbase64_b64char: "n < 64 \<Longrightarrow> unbase64 (b64char n) = Some n"
  by (auto simp: b64char_def unbase64_def Let_def)

lemma unbase64_pad: "unbase64 (CHR ''='') = None"
  by (simp add: unbase64_def)

lemma b64char_not_pad: "n < 64 \<Longrightarrow> b64char n \<noteq> CHR ''=''"
  using unbase64_b64char [of n] unbase64_pad by auto

lemma sextets_bound: "\<forall>b\<in>set bs. b < 256 \<Longrightarrow> \<forall>x\<in>set (sextets bs). x < 64"
proof (induction bs rule: sextets.induct)
  case (1 a b c rest)
  then have lt: "a < 256" "b < 256" "c < 256" and ih: "\<forall>x\<in>set (sextets rest). x < 64"
    by simp_all
  have "a mod 4 < 4" "b mod 16 < 16" by simp_all
  with hi_nibble [OF lt(2)] hi_pair [OF lt(3)]
  have "a mod 4 * 16 + b div 16 < 64" "b mod 16 * 4 + c div 64 < 64" by arith+
  with lt ih show ?case by (simp add: less_mult_imp_div_less)
next
  case (2 a b)
  then have lt: "a < 256" "b < 256" by simp_all
  have "a mod 4 < 4" "b mod 16 < 16" by simp_all
  with hi_nibble [OF lt(2)]
  have "a mod 4 * 16 + b div 16 < 64" "b mod 16 * 4 < 64" by arith+
  with lt show ?case by (simp add: less_mult_imp_div_less)
next
  case (3 a)
  have "a mod 4 < 4" by simp
  then have "a mod 4 * 16 < 64" by arith
  with 3 show ?case by (simp add: less_mult_imp_div_less)
next
  case 4
  then show ?case by simp
qed

lemma unsextets_sextets: "\<forall>b\<in>set bs. b < 256 \<Longrightarrow> unsextets (sextets bs) = bs"
proof (induction bs rule: sextets.induct)
  case (1 a b c rest)
  then have lt: "b < 256" "c < 256" and ih: "unsextets (sextets rest) = rest" by simp_all
  show ?case
    by (simp only: sextets.simps unsextets.simps append_Cons append_Nil group4 [OF lt] ih)
next
  case (2 a b)
  then have lt: "b < 256" by simp
  show ?case
    by (simp only: sextets.simps unsextets.simps group4(1) [OF lt lt] group3 [OF lt])
next
  case (3 a)
  show ?case
    by (simp only: sextets.simps unsextets.simps group2)
next
  case 4
  then show ?case by simp
qed

lemma map_filter_unbase64:
  "\<forall>x\<in>set ss. x < 64 \<Longrightarrow> List.map_filter unbase64 (map b64char ss) = ss"
  by (induction ss) (simp_all add: List.map_filter_simps unbase64_b64char)

lemma takeWhile_pad:
  "\<forall>x\<in>set ss. x < 64 \<Longrightarrow>
     takeWhile (\<lambda>c. c \<noteq> CHR ''='') (map b64char ss @ replicate k (CHR ''='')) = map b64char ss"
proof (induction ss)
  case Nil
  show ?case by (cases k) simp_all
next
  case (Cons x ss)
  then show ?case by (simp add: b64char_not_pad)
qed

lemma base64_roundtrip: "base64_decode (base64_encode bytes) = bytes"
proof -
  let ?bs = "map of_char bytes :: nat list"
  have b: "\<forall>b\<in>set ?bs. b < 256" by simp
  then have s: "\<forall>x\<in>set (sextets ?bs). x < 64" by (rule sextets_bound)
  have "base64_decode (base64_encode bytes) = map char_of (unsextets (sextets ?bs))"
    by (simp only: base64_decode_def base64_encode_def takeWhile_pad [OF s] map_filter_unbase64 [OF s])
  also have "\<dots> = map char_of ?bs" by (simp only: unsextets_sextets [OF b])
  also have "\<dots> = bytes" by (simp add: comp_def)
  finally show ?thesis .
qed

section \<open>Facts about logging, the \<open>try\<close> block and event selection\<close>

lemma issued_append [simp]: "issued (a @ b) = issued a @ issued b"
  by (induction a rule: issued.induct) simp_all

lemma calls_outcome [simp]: "calls \<lparr> returned = a, timeline = t, store_after = s \<rparr> = issued t"
  by (simp add: calls_def)

lemma one_at_a_time_append:
  "one_at_a_time a \<Longrightarrow> one_at_a_time b \<Longrightarrow> one_at_a_time (a @ b)"
  by (induction a rule: one_at_a_time.induct) simp_all

lemma log_js_settles: "fst (log_js cfg rt msg data level event ctx) = Inr ()"
  by (simp add: log_js_def await_fetch_def Let_def split: option.splits sum.splits)

lemma log_js_one_at_a_time: "one_at_a_time (snd (log_js cfg rt msg data level event ctx))"
  by (simp add: log_js_def await_fetch_def Let_def split: option.splits sum.splits)

lemma log_js_not_forward:
  "req \<in> set (issued (snd (log_js cfg rt msg data level event ctx))) \<Longrightarrow> \<not> is_forward req"
  by (auto simp add: log_js_def await_fetch_def Let_def is_forward_def
      split: option.splits sum.splits if_splits)

lemma logger_error_settles:
  "logger_error cfg rt event ctx msg data
     = (Inr (), snd (logger_error cfg rt event ctx msg data))"
  using log_js_settles [of cfg rt msg data "''error''" event ctx]
  by (simp add: logger_error_def prod_eq_iff)

lemma logger_debug_settles:
  "logger_debug cfg rt event ctx msg data
     = (Inr (), snd (logger_debug cfg rt event ctx msg data))"
  using log_js_settles [of cfg rt msg data "''debug''" event ctx]
  by (simp add: logger_debug_def prod_eq_iff)

lemma logger_error_one_at_a_time:
  "one_at_a_time (snd (logger_error cfg rt event ctx msg data))"
  by (simp add: logger_error_def log_js_one_at_a_time)

lemma logger_debug_one_at_a_time:
  "one_at_a_time (snd (logger_debug cfg rt event ctx msg data))"
  by (simp add: logger_debug_def log_js_one_at_a_time)

lemma is_forward_forwardLocationUpdate: "is_forward (forwardLocationUpdate cfg rt text pt)"
  by (simp add: is_forward_def forwardLocationUpdate_def Let_def)

lemma logger_error_not_forward:
  "filter is_forward (issued (snd (logger_error cfg rt event ctx msg data))) = []"
  by (auto simp: logger_error_def filter_empty_conv dest: log_js_not_forward)

lemma logger_debug_not_forward:
  "filter is_forward (issued (snd (logger_debug cfg rt event ctx msg data))) = []"
  by (auto simp: logger_debug_def filter_empty_conv dest: log_js_not_forward)

lemma catch_calls_not_forward:
  "filter is_forward (issued (catch_calls cfg rt event ctx res)) = []"
  by (cases res) (simp_all add: catch_calls_def logger_error_not_forward)

lemma catch_calls_one_at_a_time: "one_at_a_time (catch_calls cfg rt event ctx res)"
  by (cases res) (simp_all add: catch_calls_def logger_error_one_at_a_time)

lemma log_js_record:
  "issued (snd (log_js cfg rt msg data level event ctx)) = []
   \<or> (\<exists>req lg. issued (snd (log_js cfg rt msg data level event ctx)) = [req]
         \<and> fetch_body req = LogBody lg \<and> level_string lg = level
         \<and> message_string lg = msg \<and> log_extra lg = data)"
  by (simp add: log_js_def await_fetch_def Let_def split: option.splits sum.splits)

lemma logger_debug_record:
  "issued (snd (logger_debug cfg rt event ctx ''IPC Outbound request received'' NoData)) = []
   \<or> (\<exists>d. issued (snd (logger_debug cfg rt event ctx ''IPC Outbound request received'' NoData))
            = [d]
         \<and> is_debug_record d)"
  using log_js_record [of cfg rt "''IPC Outbound request received''" NoData "''debug''" event ctx]
  by (auto simp: logger_debug_def is_debug_record_def)

lemma logger_error_record:
  "issued (snd (logger_error cfg rt event ctx msg data)) = []
   \<or> (\<exists>e lg. issued (snd (logger_error cfg rt event ctx msg data)) = [e]
         \<and> fetch_body e = LogBody lg \<and> level_string lg = ''error''
         \<and> message_string lg = msg \<and> log_extra lg = data)"
  using log_js_record [of cfg rt msg data "''error''" event ctx]
  by (simp add: logger_error_def)

text \<open>
  The body of the \<open>try\<close> block by what becomes of the forward call: \<open>fetch\<close> throws;
  the response is \<open>ok\<close>; it is not and \<open>json()\<close> throws; it is not and the body is
  parsed, and then the rejection is logged.
\<close>

lemma try_forward_cases:
  fixes cfg rt event ctx code pt
  defines "req \<equiv> forwardLocationUpdate cfg rt (receiverText code) pt"
  obtains (threw) err where "fetch rt req = Inl err"
      "try_forward cfg rt event ctx code pt = (Inl err, [Issued req, Settled req])"
  | (accepted) result where "fetch rt req = Inr result" "ok result"
      "try_forward cfg rt event ctx code pt = (Inr (), [Issued req, Settled req])"
  | (unreadable) result err where "fetch rt req = Inr result" "\<not> ok result"
      "json result = Inl err"
      "try_forward cfg rt event ctx code pt = (Inl err, [Issued req, Settled req])"
  | (rejected) result body where "fetch rt req = Inr result" "\<not> ok result"
      "json result = Inr body"
      "try_forward cfg rt event ctx code pt
         = (Inr (), [Issued req, Settled req]
              @ snd (logger_error cfg rt event ctx ''IPC Inbound request rejected''
                       (Rejected (response_status result) body)))"
proof (cases "fetch rt req")
  case (Inl err)
  then show ?thesis
    using threw [of err] by (simp add: try_forward_def await_fetch_def Let_def req_def)
next
  case (Inr result)
  show ?thesis
  proof (cases "ok result")
    case True
    with Inr show ?thesis
      using accepted [of result] by (simp add: try_forward_def await_fetch_def Let_def req_def)
  next
    case False
    show ?thesis
    proof (cases "json result")
      case (Inl err)
      with Inr False show ?thesis
        using unreadable [of result err]
        by (simp add: try_forward_def await_fetch_def Let_def req_def)
    next
      case body: (Inr body)
      obtain cs where le: "logger_error cfg rt event ctx ''IPC Inbound request rejected''
            (Rejected (response_status result) body) = (Inr (), cs)"
        using logger_error_settles by blast
      with Inr False body show ?thesis
        using rejected [of result body]
        by (simp add: try_forward_def await_fetch_def Let_def req_def)
    qed
  qed
qed

lemma try_forward_forward:
  "filter is_forward (issued (snd (try_forward cfg rt event ctx code pt)))
     = [forwardLocationUpdate cfg rt (receiverText code) pt]"
  by (cases rule: try_forward_cases [of rt cfg code pt event ctx])
     (simp_all add: is_forward_forwardLocationUpdate issued_append logger_error_not_forward)

lemma try_forward_one_at_a_time: "one_at_a_time (snd (try_forward cfg rt event ctx code pt))"
  by (cases rule: try_forward_cases [of rt cfg code pt event ctx])
     (simp_all add: logger_error_one_at_a_time)

text \<open>
  The \<open>try\<close> block and the \<open>catch\<close> block together: the forward call, and after it at
  most one error record, written only when the forward call failed.
\<close>

lemma try_then_catch:
  "\<exists>c3. issued (snd (try_forward cfg rt event ctx code pt)
                  @ catch_calls cfg rt event ctx (fst (try_forward cfg rt event ctx code pt)))
        = forwardLocationUpdate cfg rt (receiverText code) pt # c3
      \<and> (c3 = []
          \<or> (\<exists>e. c3 = [e]
                \<and> forward_failed rt (forwardLocationUpdate cfg rt (receiverText code) pt)
                \<and> reports_failure rt (forwardLocationUpdate cfg rt (receiverText code) pt) e))"
proof (cases rule: try_forward_cases [of rt cfg code pt event ctx])
  case (threw err)
  then show ?thesis
    using logger_error_record [of cfg rt event ctx "''Failed to send IPC Inbound request''"
        "Failed (if message err = [] then ''Unknown error'' else message err)"]
    by (auto simp: catch_calls_def issued_append forward_failed_def reports_failure_def
        thrown_def)
next
  case (accepted result)
  then show ?thesis by (simp add: catch_calls_def)
next
  case (unreadable result err)
  then show ?thesis
    using logger_error_record [of cfg rt event ctx "''Failed to send IPC Inbound request''"
        "Failed (if message err = [] then ''Unknown error'' else message err)"]
    by (auto simp: catch_calls_def issued_append forward_failed_def reports_failure_def
        thrown_def)
next
  case (rejected result body)
  then show ?thesis
    using logger_error_record [of cfg rt event ctx "''IPC Inbound request rejected''"
        "Rejected (response_status result) body"]
    by (auto simp: catch_calls_def issued_append forward_failed_def reports_failure_def)
qed

text \<open>On a batch of events the sort is the stable sort by time, and nothing is thrown.\<close>

lemma insert_by_events:
  "insert_by by_timeStamp (Obj x) (map Obj ys) = Inr (map Obj (insort_key timeStamp x ys))"
  by (induction ys) (simp_all add: by_timeStamp_def)

lemma js_sort_events:
  "js_sort by_timeStamp (map Obj xs) = Inr (map Obj (sort_key timeStamp xs))"
  by (induction xs) (simp_all add: insert_by_events)

text \<open>Every stable sort by time yields this list: the model does not depend on the algorithm.\<close>

lemma stable_sort_unique:
  assumes "mset ys = mset xs"
    and "sorted (map timeStamp ys)"
    and "\<And>k. filter (\<lambda>x. timeStamp x = k) ys = filter (\<lambda>x. timeStamp x = k) xs"
  shows "js_sort by_timeStamp (map Obj xs) = Inr (map Obj ys)"
proof -
  have "sort_key timeStamp xs = ys"
  proof (rule properties_for_sort_key)
    show "mset ys = mset xs" by (rule assms(1))
    show "sorted (map timeStamp ys)" by (rule assms(2))
    show "filter (\<lambda>x. timeStamp k = timeStamp x) ys = filter (\<lambda>x. timeStamp k = timeStamp x) xs"
      for k
      using assms(3) [of "timeStamp k"] by (simp add: eq_commute)
  qed
  then show ?thesis by (simp add: js_sort_events)
qed

text \<open>
  A \<open>null\<close> among two or more elements makes the sort throw; a single element, \<open>null\<close>
  or not, is not compared with anything.
\<close>

lemma no_null_events: "Null \<notin> set xs \<Longrightarrow> \<exists>evs. xs = map Obj evs"
proof (induction xs)
  case Nil
  then show ?case by simp
next
  case (Cons x xs)
  then obtain evs where "xs = map Obj evs" by auto
  moreover from Cons.prems obtain e where "x = Obj e" by (cases x) auto
  ultimately have "x # xs = map Obj (e # evs)" by simp
  then show ?case by (rule exI)
qed

lemma js_sort_single: "js_sort cmp [x] = Inr [x]"
  by simp

lemma insert_by_null: "insert_by by_timeStamp Null (y # ys) = Inl (TypeError ''null'')"
  by (simp add: by_timeStamp_def)

lemma js_sort_null:
  "Null \<in> set xs \<Longrightarrow> 2 \<le> length xs \<Longrightarrow> js_sort by_timeStamp xs = Inl (TypeError ''null'')"
proof (induction xs)
  case Nil
  then show ?case by simp
next
  case (Cons x xs)
  show ?case
  proof (cases "Null \<in> set xs \<and> 2 \<le> length xs")
    case True
    with Cons.IH show ?thesis by simp
  next
    case False
    from Cons.prems have len: "1 \<le> length xs" by simp
    show ?thesis
    proof (cases "Null \<in> set xs")
      case True
      with False len have "length xs = 1" by simp
      then obtain y where "xs = [y]" by (cases xs) auto
      with True show ?thesis by (cases x) (simp_all add: by_timeStamp_def)
    next
      case no: False
      with Cons.prems have x: "x = Null" by simp
      from no obtain evs where evs: "xs = map Obj evs" using no_null_events by blast
      with len have "sort_key timeStamp evs \<noteq> []"
        by (metis length_0_conv length_map length_sort not_one_le_zero)
      then obtain z zs where "sort_key timeStamp evs = z # zs" by (cases "sort_key timeStamp evs") auto
      with evs have "js_sort by_timeStamp xs = Inr (Obj z # map Obj zs)"
        by (simp add: js_sort_events)
      with x show ?thesis by (simp add: insert_by_null del: insert_by.simps)
    qed
  qed
qed

text \<open>The selection on a batch of events, and what it leaves in the store.\<close>

lemma select_events:
  assumes "cells s r = map Obj evs"
  shows "fst (select_outboundEvent s r)
     = Inr (if evs = [] then None else Some (Obj (last (sort_key timeStamp evs))))"
proof (cases "sort_key timeStamp evs")
  case Nil
  then have "evs = []" by (metis length_0_conv length_sort)
  with assms show ?thesis
    by (simp add: select_outboundEvent_def spread_copy_def array_sort_def array_pop_def)
next
  case (Cons x xs)
  then have "evs \<noteq> []" by auto
  moreover have "last (map Obj (x # xs)) = Obj (last (x # xs))"
    by (rule last_map) simp
  ultimately show ?thesis
    using assms Cons
    by (simp add: select_outboundEvent_def spread_copy_def array_sort_def array_pop_def
        js_sort_events del: last.simps)
qed

lemma select_empty: "cells s r = [] \<Longrightarrow> fst (select_outboundEvent s r) = Inr None"
  using select_events [of s r "[]"] by simp

lemma select_snd_cells:
  "r' \<noteq> next_free s \<Longrightarrow> cells (snd (select_outboundEvent s r)) r' = cells s r'"
  by (auto simp: select_outboundEvent_def spread_copy_def array_sort_def array_pop_def
      split: list.splits sum.splits)

lemma select_snd_copy:
  assumes "cells s r = map Obj evs"
  shows "cells (snd (select_outboundEvent s r)) (next_free s)
     = map Obj (butlast (sort_key timeStamp evs))"
  using assms
  by (simp add: select_outboundEvent_def spread_copy_def array_sort_def array_pop_def
      js_sort_events map_butlast split: list.splits)

lemma last_sort_key_in: "xs \<noteq> [] \<Longrightarrow> last (sort_key f xs) \<in> set xs"
  by (metis last_in_set set_sort length_0_conv length_sort)

lemma last_sort_key_max:
  assumes "x \<in> set xs"
  shows "f x \<le> f (last (sort_key f xs))"
proof -
  have s: "sorted (map f (sort_key f xs))" by (rule sorted_sort_key)
  from assms have "x \<in> set (sort_key f xs)" by simp
  then obtain i where i: "i < length (sort_key f xs)" "sort_key f xs ! i = x"
    by (metis in_set_conv_nth)
  have ne: "sort_key f xs \<noteq> []" using \<open>x \<in> set (sort_key f xs)\<close> by force
  have "map f (sort_key f xs) ! i \<le> map f (sort_key f xs) ! (length (sort_key f xs) - 1)"
    using s i by (intro sorted_nth_mono) auto
  with i ne show ?thesis by (simp add: last_conv_nth)
qed

lemma last_filter_last: "ys \<noteq> [] \<Longrightarrow> P (last ys) \<Longrightarrow> last (filter P ys) = last ys"
  by (induction ys) (auto simp: filter_empty_conv)

lemma last_sort_key_stable:
  assumes "xs \<noteq> []"
  shows "last (sort_key f xs) = last (filter (\<lambda>x. f x = f (last (sort_key f xs))) xs)"
proof -
  let ?e = "last (sort_key f xs)"
  have ne: "sort_key f xs \<noteq> []" using assms by (metis length_0_conv length_sort)
  have "filter (\<lambda>y. f y = f ?e) (sort_key f xs) = filter (\<lambda>y. f y = f ?e) xs"
    by (rule sort_key_stable)
  moreover have "last (filter (\<lambda>y. f y = f ?e) (sort_key f xs)) = ?e"
    using ne by (simp add: last_filter_last)
  ultimately show ?thesis by simp
qed

lemma main_unauthorized:
  "\<not> isAuthorizedRequest cfg event \<Longrightarrow>
     main cfg rt s event ctx
       = \<lparr> returned = Inr \<lparr> statusCode = 200 \<rparr>, timeline = [], store_after = s \<rparr>"
  by (simp add: main_def)

lemma main_not_post:
  "map_option http_method (http event) \<noteq> Some ''POST'' \<Longrightarrow>
     main cfg rt s event ctx
       = \<lparr> returned = Inr \<lparr> statusCode = 200 \<rparr>, timeline = [], store_after = s \<rparr>"
  by (simp add: main_def)

lemma main_not_array:
  "Events event = EventsAbsent \<or> Events event = EventsNotArray \<Longrightarrow>
     main cfg rt s event ctx
       = \<lparr> returned = Inr \<lparr> statusCode = 200 \<rparr>, timeline = [], store_after = s \<rparr>"
  by (auto simp add: main_def)

lemma main_cases:
  obtains
    (early) "main cfg rt s event ctx
       = \<lparr> returned = Inr \<lparr> statusCode = 200 \<rparr>, timeline = [], store_after = s \<rparr>"
  | (array) r where "isAuthorizedRequest cfg event"
      "map_option http_method (http event) = Some ''POST''" "Events event = EventsArray r"
proof (cases "isAuthorizedRequest cfg event \<and> map_option http_method (http event) = Some ''POST''")
  case False
  then show ?thesis using early main_unauthorized main_not_post by blast
next
  case True
  show ?thesis
  proof (cases "Events event")
    case (EventsArray r)
    with True show ?thesis using array by blast
  next
    case EventsAbsent
    then show ?thesis using early main_not_array by blast
  next
    case EventsNotArray
    then show ?thesis using early main_not_array by blast
  qed
qed

text \<open>
  An authorized POST with an array, by what the selection comes to: it throws; it
  yields nothing, or \<open>null\<close>; it yields an event.
\<close>

lemma selection_cases:
  obtains (throws) err where "fst (select_outboundEvent s r) = Inl err"
  | (nothing) "fst (select_outboundEvent s r) = Inr None
               \<or> fst (select_outboundEvent s r) = Inr (Some Null)"
  | (event) e where "fst (select_outboundEvent s r) = Inr (Some (Obj e))"
proof (cases "fst (select_outboundEvent s r)")
  case (Inl err)
  then show ?thesis by (rule throws)
next
  case (Inr oe)
  show ?thesis
  proof (cases oe)
    case None
    with Inr have "fst (select_outboundEvent s r) = Inr None
        \<or> fst (select_outboundEvent s r) = Inr (Some Null)" by simp
    then show ?thesis by (rule nothing)
  next
    case (Some el)
    show ?thesis
    proof (cases el)
      case Null
      with Inr Some have "fst (select_outboundEvent s r) = Inr None
          \<or> fst (select_outboundEvent s r) = Inr (Some Null)" by simp
      then show ?thesis by (rule nothing)
    next
      case (Obj e)
      with Inr Some have "fst (select_outboundEvent s r) = Inr (Some (Obj e))" by simp
      then show ?thesis by (rule event)
    qed
  qed
qed

lemma main_array_throws:
  assumes "isAuthorizedRequest cfg event"
    and "map_option http_method (http event) = Some ''POST''"
    and "Events event = EventsArray r"
    and "fst (select_outboundEvent s r) = Inl err"
  shows "main cfg rt s event ctx =
     \<lparr> returned = Inl err,
       timeline = snd (logger_debug cfg rt event ctx ''IPC Outbound request received'' NoData),
       store_after = snd (select_outboundEvent s r) \<rparr>"
proof -
  obtain ev s' where sel: "select_outboundEvent s r = (ev, s')"
    by (cases "select_outboundEvent s r")
  obtain c1 where d:
    "logger_debug cfg rt event ctx ''IPC Outbound request received'' NoData = (Inr (), c1)"
    using logger_debug_settles by blast
  from assms sel d show ?thesis by (simp add: main_def)
qed

lemma main_array_nothing:
  assumes "isAuthorizedRequest cfg event"
    and "map_option http_method (http event) = Some ''POST''"
    and "Events event = EventsArray r"
    and "fst (select_outboundEvent s r) = Inr None
         \<or> fst (select_outboundEvent s r) = Inr (Some Null)"
  shows "main cfg rt s event ctx =
     \<lparr> returned = Inr \<lparr> statusCode = 200 \<rparr>,
       timeline = snd (logger_debug cfg rt event ctx ''IPC Outbound request received'' NoData),
       store_after = snd (select_outboundEvent s r) \<rparr>"
proof -
  obtain ev s' where sel: "select_outboundEvent s r = (ev, s')"
    by (cases "select_outboundEvent s r")
  obtain c1 where d:
    "logger_debug cfg rt event ctx ''IPC Outbound request received'' NoData = (Inr (), c1)"
    using logger_debug_settles by blast
  from assms sel d show ?thesis by (auto simp: main_def)
qed

lemma main_array:
  assumes "isAuthorizedRequest cfg event"
    and "map_option http_method (http event) = Some ''POST''"
    and "Events event = EventsArray r"
    and "fst (select_outboundEvent s r) = Inr (Some (Obj e))"
  shows "main cfg rt s event ctx =
     \<lparr> returned = (if point_missing cfg e then Inl (TypeError ''undefined'')
                   else Inr \<lparr> statusCode = 200 \<rparr>),
       timeline = snd (logger_debug cfg rt event ctx ''IPC Outbound request received'' NoData)
         @ (case point e of
              None \<Rightarrow> []
            | Some pt \<Rightarrow>
                if passes_filters cfg e then
                  snd (try_forward cfg rt event ctx (messageCode e) pt)
                  @ catch_calls cfg rt event ctx
                      (fst (try_forward cfg rt event ctx (messageCode e) pt))
                else []),
       store_after = snd (select_outboundEvent s r) \<rparr>"
proof -
  obtain s' where sel: "select_outboundEvent s r = (Inr (Some (Obj e)), s')"
    using assms(4) by (cases "select_outboundEvent s r") simp
  obtain c1 where d:
    "logger_debug cfg rt event ctx ''IPC Outbound request received'' NoData = (Inr (), c1)"
    using logger_debug_settles by blast
  show ?thesis
  proof (cases "point e")
    case None
    with assms sel d show ?thesis
      by (simp add: main_def passes_filters_def point_missing_def)
  next
    case pt: (Some pt)
    obtain r2 c2 where tf: "try_forward cfg rt event ctx (messageCode e) pt = (r2, c2)"
      by (cases "try_forward cfg rt event ctx (messageCode e) pt")
    show ?thesis
    proof (cases r2)
      case (Inr u)
      with assms sel d pt tf show ?thesis
        by (simp add: main_def passes_filters_def point_missing_def catch_calls_def)
    next
      case (Inl err)
      obtain c3 where le: "logger_error cfg rt event ctx ''Failed to send IPC Inbound request''
          (Failed (if message err = [] then ''Unknown error'' else message err)) = (Inr (), c3)"
        using logger_error_settles by blast
      from assms sel d pt tf Inl le show ?thesis
        by (simp add: main_def passes_filters_def point_missing_def catch_calls_def)
    qed
  qed
qed

lemma main_array_store:
  assumes "isAuthorizedRequest cfg event"
    and "map_option http_method (http event) = Some ''POST''"
    and "Events event = EventsArray r"
  shows "store_after (main cfg rt s event ctx) = snd (select_outboundEvent s r)"
proof (cases rule: selection_cases [of s r])
  case (throws err)
  then show ?thesis by (simp add: main_array_throws [OF assms])
next
  case nothing
  then show ?thesis by (simp add: main_array_nothing [OF assms])
next
  case (event e)
  then show ?thesis by (simp add: main_array [OF assms])
qed

lemma main_array_forward:
  assumes "isAuthorizedRequest cfg event"
    and "map_option http_method (http event) = Some ''POST''"
    and "Events event = EventsArray r"
    and "fst (select_outboundEvent s r) = Inr (Some (Obj e))"
  shows "filter is_forward (calls (main cfg rt s event ctx)) =
     (case point e of
        None \<Rightarrow> []
      | Some pt \<Rightarrow>
          if passes_filters cfg e
          then [forwardLocationUpdate cfg rt (receiverText (messageCode e)) pt]
          else [])"
  by (simp add: main_array [OF assms] logger_debug_not_forward try_forward_forward
      catch_calls_not_forward split: option.splits)

lemma main_array_no_forward:
  assumes "isAuthorizedRequest cfg event"
    and "map_option http_method (http event) = Some ''POST''"
    and "Events event = EventsArray r"
    and "\<And>e. fst (select_outboundEvent s r) \<noteq> Inr (Some (Obj e))"
  shows "filter is_forward (calls (main cfg rt s event ctx)) = []"
proof (cases rule: selection_cases [of s r])
  case (throws err)
  then show ?thesis by (simp add: main_array_throws [OF assms(1-3)] logger_debug_not_forward)
next
  case nothing
  then show ?thesis by (simp add: main_array_nothing [OF assms(1-3)] logger_debug_not_forward)
next
  case (event e)
  with assms(4) [of e] show ?thesis by simp
qed

text \<open>
  The handler answers 200 unless the sort throws, or it reaches line 121 with an event
  that has no point.
\<close>

lemma main_returned:
  "returned (main cfg rt s event ctx) = Inr \<lparr> statusCode = 200 \<rparr>
   \<or> (\<exists>r. Events event = EventsArray r
          \<and> ((\<exists>err. fst (select_outboundEvent s r) = Inl err
                  \<and> returned (main cfg rt s event ctx) = Inl err)
             \<or> (\<exists>e. fst (select_outboundEvent s r) = Inr (Some (Obj e))
                  \<and> point_missing cfg e
                  \<and> returned (main cfg rt s event ctx) = Inl (TypeError ''undefined''))))"
proof (cases rule: main_cases [of cfg rt s event ctx])
  case early
  then show ?thesis by simp
next
  case (array r)
  show ?thesis
  proof (cases rule: selection_cases [of s r])
    case (throws err)
    with array show ?thesis by (auto simp: main_array_throws)
  next
    case nothing
    with array show ?thesis by (simp add: main_array_nothing)
  next
    case (event e)
    with array show ?thesis by (auto simp: main_array)
  qed
qed

lemma main_forward_is_forwardLocationUpdate:
  assumes "req \<in> set (calls (main cfg rt s event ctx))" and "is_forward req"
  shows "\<exists>lbl pt. req = forwardLocationUpdate cfg rt lbl pt"
proof (cases rule: main_cases [of cfg rt s event ctx])
  case early
  with assms show ?thesis by simp
next
  case (array r)
  from assms have in_fwd: "req \<in> set (filter is_forward (calls (main cfg rt s event ctx)))"
    by simp
  show ?thesis
  proof (cases "\<exists>e. fst (select_outboundEvent s r) = Inr (Some (Obj e))")
    case True
    then obtain e where "fst (select_outboundEvent s r) = Inr (Some (Obj e))" by blast
    with in_fwd show ?thesis
      by (auto simp: main_array_forward [OF array] split: option.splits if_splits)
  next
    case False
    then have "filter is_forward (calls (main cfg rt s event ctx)) = []"
      by (intro main_array_no_forward [OF array]) blast
    with in_fwd show ?thesis by simp
  qed
qed

section \<open>Facts about the header and the labels\<close>

lemma base64_decode_Nil: "base64_decode [] = []"
  by (simp add: base64_decode_def List.map_filter_simps)

lemma utf8_decode_Nil: "utf8_toString (base64_decode []) = []"
  by (simp add: base64_decode_Nil)

lemma split_on_no_sep: "d \<notin> set p \<Longrightarrow> split_on d p = [p]"
  by (induction p) auto

lemma split_on_append: "d \<notin> set p \<Longrightarrow> split_on d (p @ d # q) = p # split_on d q"
  by (induction p) auto

lemma receiverText_codes:
  "receiverText 0 = ''Location Update''"
  "receiverText 10 = ''Tracking Started''"
  "receiverText 12 = ''Tracking Stopped''"
  by (simp_all add: receiverText_def messageCodeToReceiverText_def PositionReport_def
      StartTrack_def StopTrack_def)

lemma receiverText_unmapped:
  "code \<notin> {0, 10, 12} \<Longrightarrow> receiverText code = ''Location Update''"
  by (simp add: receiverText_def messageCodeToReceiverText_def PositionReport_def
      StartTrack_def StopTrack_def)

section \<open>Facts about the sample invocations\<close>

lemma sample_authorized: "isAuthorizedRequest sample_config (sample_event evs)"
proof -
  have "utf8_toString (base64_decode ''dG9rOg=='') = ''tok:''" by code_simp
  moreover have "second_part ''Basic dG9rOg=='' = Some ''dG9rOg==''" by code_simp
  ultimately show ?thesis
    by (simp add: isAuthorizedRequest_def authorization_header_def sample_event_def
        sample_http_def sample_config_def)
qed

lemma sample_post: "map_option http_method (http (sample_event evs)) = Some ''POST''"
  by (simp add: sample_event_def sample_http_def)

lemma sample_events: "Events (sample_event evs) = evs"
  by (simp add: sample_event_def)

lemma sample_cells:
  "cells sample_store 0 = map Obj [sample_report]"
  "cells sample_store 1 = map Obj [sample_report, sample_other]"
  "cells sample_store 2 = map Obj []"
  "cells sample_store 3 = map Obj [sample_pointless]"
  "cells sample_store 4 = [Obj sample_report, Null]"
  "cells sample_store 5 = [Null]"
  by (simp_all add: sample_store_def)

lemma sample_select:
  "fst (select_outboundEvent sample_store 0) = Inr (Some (Obj sample_report))"
  "fst (select_outboundEvent sample_store 1) = Inr (Some (Obj sample_other))"
  "fst (select_outboundEvent sample_store 2) = Inr None"
  "fst (select_outboundEvent sample_store 3) = Inr (Some (Obj sample_pointless))"
proof -
  show "fst (select_outboundEvent sample_store 0) = Inr (Some (Obj sample_report))"
    using select_events [OF sample_cells(1)] by simp
  show "fst (select_outboundEvent sample_store 1) = Inr (Some (Obj sample_other))"
    using select_events [OF sample_cells(2)] by (simp add: sample_report_def sample_other_def)
  show "fst (select_outboundEvent sample_store 2) = Inr None"
    using select_events [OF sample_cells(3)] by simp
  show "fst (select_outboundEvent sample_store 3) = Inr (Some (Obj sample_pointless))"
    using select_events [OF sample_cells(4)] by simp
qed

lemma sample_select_null:
  "fst (select_outboundEvent sample_store 4) = Inl (TypeError ''null'')"
  "fst (select_outboundEvent sample_store 5) = Inr (Some Null)"
  by (simp_all add: select_outboundEvent_def spread_copy_def array_sort_def array_pop_def
      sample_cells by_timeStamp_def)

lemma sample_passes:
  "passes_filters sample_config sample_report"
  "\<not> passes_filters sample_config sample_other"
  by (simp_all add: passes_filters_def sample_config_def sample_report_def sample_other_def
      trackingMessageCodes_def PositionReport_def sample_point_def)

lemma sample_report_point: "point sample_report = Some sample_point"
  by (simp add: sample_report_def)

lemma sample_point_missing: "point_missing sample_config sample_pointless"
  by (simp add: point_missing_def sample_config_def sample_pointless_def
      trackingMessageCodes_def PositionReport_def)

section \<open>The handler does not always answer 200\<close>

text \<open>
  C1 says that for every invocation, whatever the method, the headers, the body and the
  outcome of the forward call, \<open>main\<close> returns \<open>{ statusCode: 200 }\<close> and never lets an
  exception reach the caller; the comment above \<open>main\<close> (lines 79 to 82) says the same.
  The code does not do this. An authorized POST whose batch is
  \<open>[{ imei: <the sender>, messageCode: 0, timeStamp: 1 }]\<close>, an event with no \<open>point\<close>,
  gets past the guards of lines 110 and 115; line 121 then reads \<open>point.latitude\<close> of
  \<open>undefined\<close>, outside the \<open>try\<close> block that begins at line 125, and the promise of
  \<open>main\<close> is rejected with the \<open>TypeError\<close>. The sample request with array 3 is this
  input. The batch of array 4, a report and then \<open>null\<close>, is rejected as well: the
  comparator of line 100 reads \<open>timeStamp\<close> of \<open>null\<close>.
\<close>

theorem main_rejects_without_point:
  "returned (main sample_config sample_runtime sample_store
               (sample_event (EventsArray 3)) sample_context) = Inl (TypeError ''undefined'')
   \<and> returned (main sample_config sample_runtime sample_store
               (sample_event (EventsArray 4)) sample_context) = Inl (TypeError ''null'')"
  by (simp add: main_array [OF sample_authorized sample_post sample_events sample_select(4)]
      main_array_throws [OF sample_authorized sample_post sample_events sample_select_null(1)]
      sample_point_missing)

section \<open>Authorization\<close>

text \<open>
  C2. A request is authorized exactly when its \<open>authorization\<close> header is present
  and the second of its space-separated parts decodes (base64, then UTF-8) to the
  configured token followed by a colon. A request that is not authorized (no header,
  no second part, or another decoded value) is answered with \<open>{ statusCode: 200 }\<close>
  and no outbound call at all is issued.
\<close>

theorem authorized_iff_token:
  "(isAuthorizedRequest cfg event \<longleftrightarrow>
      (\<exists>authorization p encodedToken ps.
          authorization_header event = Some authorization
        \<and> split_on (CHR '' '') authorization = p # encodedToken # ps
        \<and> utf8_toString (base64_decode encodedToken) = REQUEST_AUTH_TOKEN cfg @ '':''))
   \<and> (\<not> isAuthorizedRequest cfg event \<longrightarrow>
        returned (main cfg rt s event ctx) = Inr \<lparr> statusCode = 200 \<rparr>
      \<and> calls (main cfg rt s event ctx) = [])"
proof (intro conjI impI)
  show "isAuthorizedRequest cfg event \<longleftrightarrow>
      (\<exists>authorization p encodedToken ps.
          authorization_header event = Some authorization
        \<and> split_on (CHR '' '') authorization = p # encodedToken # ps
        \<and> utf8_toString (base64_decode encodedToken) = REQUEST_AUTH_TOKEN cfg @ '':'')"
  proof (cases "authorization_header event")
    case None
    then show ?thesis by (simp add: isAuthorizedRequest_def)
  next
    case (Some a)
    show ?thesis
    proof (cases "split_on (CHR '' '') a")
      case Nil
      with Some show ?thesis by (simp add: isAuthorizedRequest_def second_part_def)
    next
      case (Cons p rest)
      show ?thesis
      proof (cases rest)
        case Nil
        with Some Cons show ?thesis by (simp add: isAuthorizedRequest_def second_part_def)
      next
        case (Cons t ps)
        with Some \<open>split_on (CHR '' '') a = p # rest\<close> show ?thesis
          by (auto simp: isAuthorizedRequest_def second_part_def base64_decode_Nil)
      qed
    qed
  qed
qed (simp_all add: main_unauthorized)

text \<open>
  The header \<open>Basic dG9rOg==\<close> is accepted; \<open>Basic d3Jvbmc6\<close>, which decodes to
  \<open>wrong:\<close>, is not; a request without the \<open>http\<close> part has no header and is
  refused, silently.
\<close>

theorem authorized_iff_token_witness:
  "isAuthorizedRequest sample_config (sample_event (EventsArray 0))
   \<and> \<not> isAuthorizedRequest sample_config
        (sample_event (EventsArray 0)\<lparr> http := Some (sample_http ''Basic d3Jvbmc6'' ''POST'') \<rparr>)
   \<and> \<not> isAuthorizedRequest sample_config (sample_event (EventsArray 0)\<lparr> http := None \<rparr>)
   \<and> returned (main sample_config sample_runtime sample_store
                 (sample_event (EventsArray 0)\<lparr> http := None \<rparr>) sample_context)
       = Inr \<lparr> statusCode = 200 \<rparr>
   \<and> calls (main sample_config sample_runtime sample_store
                 (sample_event (EventsArray 0)\<lparr> http := None \<rparr>) sample_context) = []"
proof -
  let ?good = "sample_event (EventsArray 0)"
  let ?wrong = "sample_event (EventsArray 0)\<lparr> http := Some (sample_http ''Basic d3Jvbmc6'' ''POST'') \<rparr>"
  let ?none = "sample_event (EventsArray 0)\<lparr> http := None \<rparr>"
  have h: "authorization_header ?good = Some ''Basic dG9rOg==''"
    "authorization_header ?wrong = Some ''Basic d3Jvbmc6''"
    "authorization_header ?none = None"
    by (simp_all add: authorization_header_def sample_event_def sample_http_def)
  have sp: "split_on (CHR '' '') ''Basic dG9rOg=='' = [''Basic'', ''dG9rOg=='']"
    "split_on (CHR '' '') ''Basic d3Jvbmc6'' = [''Basic'', ''d3Jvbmc6'']"
    by code_simp+
  have d: "utf8_toString (base64_decode ''dG9rOg=='') = REQUEST_AUTH_TOKEN sample_config @ '':''"
    "utf8_toString (base64_decode ''d3Jvbmc6'') = ''wrong:''"
    by code_simp+
  have t: "REQUEST_AUTH_TOKEN sample_config = ''tok''" by (simp add: sample_config_def)
  have "isAuthorizedRequest sample_config ?good"
    using authorized_iff_token [of sample_config ?good sample_runtime sample_store sample_context]
      h(1) sp(1) d(1) by blast
  moreover have "\<not> isAuthorizedRequest sample_config ?wrong"
    using authorized_iff_token [of sample_config ?wrong sample_runtime sample_store sample_context]
      h(2) sp(2) d(2) t by auto
  moreover have "\<not> isAuthorizedRequest sample_config ?none"
    using authorized_iff_token [of sample_config ?none sample_runtime sample_store sample_context]
      h(3) by auto
  moreover note authorized_iff_token [of sample_config ?none sample_runtime sample_store
      sample_context]
  ultimately show ?thesis by blast
qed

section \<open>Event selection\<close>

text \<open>
  C3. For an authorized POST whose \<open>Events\<close> is an array of events (no element of it is
  \<open>null\<close>): when the array is not empty, the handler picks one event \<open>e\<close> of it, one
  whose \<open>timeStamp\<close> is the largest and, among the events with that time, the last in
  the order of the input; whether a forward call is issued, and which, is decided by
  \<open>e\<close> alone (none when \<open>e\<close> fails a filter or has no point), so an earlier event that
  would pass is masked by a later one that fails. When the array is empty the handler
  returns \<open>{ statusCode: 200 }\<close> with no forward call.
\<close>

theorem latest_event_selected:
  assumes "isAuthorizedRequest cfg event"
    and "map_option http_method (http event) = Some ''POST''"
    and "Events event = EventsArray r"
    and "cells s r = map Obj evs"
  shows "(evs \<noteq> [] \<longrightarrow>
            (\<exists>e. fst (select_outboundEvent s r) = Inr (Some (Obj e))
                \<and> e \<in> set evs
                \<and> (\<forall>x\<in>set evs. timeStamp x \<le> timeStamp e)
                \<and> e = last (filter (\<lambda>x. timeStamp x = timeStamp e) evs)
                \<and> filter is_forward (calls (main cfg rt s event ctx))
                    = (case point e of
                         None \<Rightarrow> []
                       | Some pt \<Rightarrow>
                           if passes_filters cfg e
                           then [forwardLocationUpdate cfg rt (receiverText (messageCode e)) pt]
                           else [])))
       \<and> (evs = [] \<longrightarrow>
            returned (main cfg rt s event ctx) = Inr \<lparr> statusCode = 200 \<rparr>
          \<and> filter is_forward (calls (main cfg rt s event ctx)) = [])"
proof (intro conjI impI)
  assume ne: "evs \<noteq> []"
  let ?e = "last (sort_key timeStamp evs)"
  have sel: "fst (select_outboundEvent s r) = Inr (Some (Obj ?e))"
    using ne by (simp add: select_events [OF assms(4)])
  moreover have "?e \<in> set evs"
    using ne by (rule last_sort_key_in)
  moreover have "\<forall>x\<in>set evs. timeStamp x \<le> timeStamp ?e"
    by (simp add: last_sort_key_max)
  moreover have "?e = last (filter (\<lambda>x. timeStamp x = timeStamp ?e) evs)"
    using ne by (rule last_sort_key_stable)
  moreover have "filter is_forward (calls (main cfg rt s event ctx))
      = (case point ?e of
           None \<Rightarrow> []
         | Some pt \<Rightarrow>
             if passes_filters cfg ?e
             then [forwardLocationUpdate cfg rt (receiverText (messageCode ?e)) pt]
             else [])"
    by (rule main_array_forward [OF assms(1-3) sel])
  ultimately show "\<exists>e. fst (select_outboundEvent s r) = Inr (Some (Obj e))
                \<and> e \<in> set evs
                \<and> (\<forall>x\<in>set evs. timeStamp x \<le> timeStamp e)
                \<and> e = last (filter (\<lambda>x. timeStamp x = timeStamp e) evs)
                \<and> filter is_forward (calls (main cfg rt s event ctx))
                    = (case point e of
                         None \<Rightarrow> []
                       | Some pt \<Rightarrow>
                           if passes_filters cfg e
                           then [forwardLocationUpdate cfg rt (receiverText (messageCode e)) pt]
                           else [])"
    by blast
next
  assume "evs = []"
  then have none: "fst (select_outboundEvent s r) = Inr None"
    by (simp add: select_events [OF assms(4)])
  then show "filter is_forward (calls (main cfg rt s event ctx)) = []"
    by (simp add: main_array_nothing [OF assms(1-3)] logger_debug_not_forward)
  from none show "returned (main cfg rt s event ctx) = Inr \<lparr> statusCode = 200 \<rparr>"
    by (simp add: main_array_nothing [OF assms(1-3)])
qed

text \<open>
  In array 1 the report of time 100 would pass, the message of time 200 does not: it
  is the one selected, and nothing is forwarded. Array 2 is empty.
\<close>

theorem latest_event_selected_witness:
  "isAuthorizedRequest sample_config (sample_event (EventsArray 1))
   \<and> cells sample_store 1 = [Obj sample_report, Obj sample_other]
   \<and> timeStamp sample_report = 100 \<and> timeStamp sample_other = 200
   \<and> passes_filters sample_config sample_report
   \<and> \<not> passes_filters sample_config sample_other
   \<and> fst (select_outboundEvent sample_store 1) = Inr (Some (Obj sample_other))
   \<and> filter is_forward (calls (main sample_config sample_runtime sample_store
                                  (sample_event (EventsArray 1)) sample_context)) = []
   \<and> cells sample_store 2 = []
   \<and> returned (main sample_config sample_runtime sample_store
                   (sample_event (EventsArray 2)) sample_context) = Inr \<lparr> statusCode = 200 \<rparr>
   \<and> filter is_forward (calls (main sample_config sample_runtime sample_store
                                  (sample_event (EventsArray 2)) sample_context)) = []"
proof -
  note one = latest_event_selected [where rt = sample_runtime and ctx = sample_context,
      OF sample_authorized sample_post sample_events sample_cells(2)]
  note two = latest_event_selected [where rt = sample_runtime and ctx = sample_context,
      OF sample_authorized sample_post sample_events sample_cells(3)]
  have "filter is_forward (calls (main sample_config sample_runtime sample_store
                                  (sample_event (EventsArray 1)) sample_context)) = []"
    using one sample_select(2) sample_passes(2)
    by (auto split: option.splits)
  moreover have "returned (main sample_config sample_runtime sample_store
                   (sample_event (EventsArray 2)) sample_context) = Inr \<lparr> statusCode = 200 \<rparr>
   \<and> filter is_forward (calls (main sample_config sample_runtime sample_store
                                  (sample_event (EventsArray 2)) sample_context)) = []"
    using two by simp
  ultimately show ?thesis
    using sample_authorized sample_passes sample_select(2) sample_cells(2,3)
    by (simp add: sample_report_def sample_other_def)
qed

section \<open>The content filters\<close>



section \<open>The forwarded message\<close>

text \<open>
  C5. When the selected event passes the three filters (it comes from the sender
  device, its code is 0, 10 or 12, and its point is not at latitude 0 and longitude
  0), exactly one forward POST is issued. Its body holds one message: the recipients
  are the configured receiver
  device alone, the sender is the configured sender address, the text is the label of
  the message code followed by \<open>: lat <latitude> lon <longitude>\<close>, the reference point
  has location type \<open>GPSLocation\<close> and the altitude, speed, course and coordinates of the
  event's point, and the timestamp is the reading of the clock, not the event's time.
  A code without an entry in the table of labels gets \<open>Location Update\<close>.
\<close>

theorem forward_message:
  assumes "isAuthorizedRequest cfg event"
    and "map_option http_method (http event) = Some ''POST''"
    and "Events event = EventsArray r"
    and "fst (select_outboundEvent s r) = Inr (Some (Obj e))"
    and "imei e = TRACKING_SENDER_DEVICE_IMEI cfg"
    and "messageCode e \<in> {0, 10, 12}"
    and "point e = Some pt"
    and "\<not> (latitude pt = 0 \<and> longitude pt = 0)"
  shows "(\<exists>req. filter is_forward (calls (main cfg rt s event ctx)) = [req]
            \<and> fetch_method req = ''POST''
            \<and> fetch_body req = MessagesBody [\<lparr>
                 Recipients = [TRACKING_RECEIVER_DEVICE_IMEI cfg],
                 Sender = TRACKING_SENDER_INREACH_ADDRESS cfg,
                 Timestamp = dateNow rt,
                 Message =
                   (if messageCode e = 0 then ''Location Update''
                    else if messageCode e = 10 then ''Tracking Started''
                    else ''Tracking Stopped'')
                   @ '': lat '' @ numberToString rt (latitude pt)
                   @ '' lon '' @ numberToString rt (longitude pt),
                 ReferencePoint = \<lparr>
                   LocationType = ''GPSLocation'',
                   Altitude = altitude pt,
                   Speed = speed pt,
                   Course = course pt,
                   Coordinate = \<lparr> Latitude = latitude pt,
                                  Longitude = longitude pt \<rparr> \<rparr> \<rparr>])
       \<and> (\<forall>code. code \<notin> {0, 10, 12} \<longrightarrow> receiverText code = ''Location Update'')"
proof -
  have p: "passes_filters cfg e"
    using assms(5-8)
    by (simp add: passes_filters_def trackingMessageCodes_def PositionReport_def
        StartTrack_def StopTrack_def)
  have t: "receiverText (messageCode e)
      = (if messageCode e = 0 then ''Location Update''
         else if messageCode e = 10 then ''Tracking Started''
         else ''Tracking Stopped'')"
    using assms(6) receiverText_codes by auto
  have "filter is_forward (calls (main cfg rt s event ctx))
      = [forwardLocationUpdate cfg rt (receiverText (messageCode e)) pt]"
    by (simp add: main_array_forward [OF assms(1-4)] assms(7) p)
  then show ?thesis
    by (simp add: t forwardLocationUpdate_def Let_def receiverText_unmapped)
qed

text \<open>
  The report of time 100 at latitude 10 and longitude 20, forwarded when the clock
  reads 1700000000000.
\<close>

theorem forward_message_witness:
  "\<exists>req. filter is_forward (calls (main sample_config sample_runtime sample_store
                                     (sample_event (EventsArray 0)) sample_context)) = [req]
     \<and> fetch_body req = MessagesBody [\<lparr>
          Recipients = [''300000000000002''],
          Sender = ''rider@inreach.garmin.com'',
          Timestamp = 1700000000000,
          Message = ''Location Update: lat 10 lon 20'',
          ReferencePoint = \<lparr>
            LocationType = ''GPSLocation'', Altitude = 1500, Speed = 25, Course = 90,
            Coordinate = \<lparr> Latitude = 10, Longitude = 20 \<rparr> \<rparr> \<rparr>]"
proof -
  have f: "imei sample_report = TRACKING_SENDER_DEVICE_IMEI sample_config"
    "messageCode sample_report \<in> {0, 10, 12}"
    "point sample_report = Some sample_point"
    "\<not> (latitude sample_point = 0 \<and> longitude sample_point = 0)"
    by (simp_all add: sample_report_def sample_config_def sample_point_def)
  from forward_message [where rt = sample_runtime and ctx = sample_context,
      OF sample_authorized sample_post sample_events sample_select(1) f]
  obtain req where r:
    "filter is_forward (calls (main sample_config sample_runtime sample_store
                                     (sample_event (EventsArray 0)) sample_context)) = [req]"
    "fetch_body req = MessagesBody [\<lparr>
                 Recipients = [TRACKING_RECEIVER_DEVICE_IMEI sample_config],
                 Sender = TRACKING_SENDER_INREACH_ADDRESS sample_config,
                 Timestamp = dateNow sample_runtime,
                 Message =
                   (if messageCode sample_report = 0 then ''Location Update''
                    else if messageCode sample_report = 10 then ''Tracking Started''
                    else ''Tracking Stopped'')
                   @ '': lat '' @ numberToString sample_runtime (latitude sample_point)
                   @ '' lon '' @ numberToString sample_runtime (longitude sample_point),
                 ReferencePoint = \<lparr>
                   LocationType = ''GPSLocation'',
                   Altitude = altitude sample_point,
                   Speed = speed sample_point,
                   Course = course sample_point,
                   Coordinate = \<lparr> Latitude = latitude sample_point,
                                  Longitude = longitude sample_point \<rparr> \<rparr> \<rparr>]"
    by blast
  from r(2) have "fetch_body req = MessagesBody [\<lparr>
          Recipients = [''300000000000002''],
          Sender = ''rider@inreach.garmin.com'',
          Timestamp = 1700000000000,
          Message = ''Location Update: lat 10 lon 20'',
          ReferencePoint = \<lparr>
            LocationType = ''GPSLocation'', Altitude = 1500, Speed = 25, Course = 90,
            Coordinate = \<lparr> Latitude = 10, Longitude = 20 \<rparr> \<rparr> \<rparr>]"
    by (simp add: sample_report_def sample_config_def sample_point_def sample_runtime_def
        sample_numberToString_def)
  with r(1) show ?thesis by blast
qed

section \<open>The shape of the request\<close>

text \<open>
  C6. An authorized request whose method is not POST, or whose \<open>Events\<close> is absent or
  not an array, is answered with \<open>{ statusCode: 200 }\<close> and no outbound call is issued.
  An empty array passes this check: the handler goes on to the debug log record and
  then stops at the empty batch, with \<open>{ statusCode: 200 }\<close> and no forward call.
\<close>

theorem shape_filter:
  assumes "isAuthorizedRequest cfg event"
  shows "(map_option http_method (http event) \<noteq> Some ''POST''
            \<or> Events event = EventsAbsent \<or> Events event = EventsNotArray \<longrightarrow>
            returned (main cfg rt s event ctx) = Inr \<lparr> statusCode = 200 \<rparr>
          \<and> calls (main cfg rt s event ctx) = [])
       \<and> (map_option http_method (http event) = Some ''POST''
            \<and> Events event = EventsArray r \<and> cells s r = [] \<longrightarrow>
            returned (main cfg rt s event ctx) = Inr \<lparr> statusCode = 200 \<rparr>
          \<and> calls (main cfg rt s event ctx)
              = issued (snd (logger_debug cfg rt event ctx
                               ''IPC Outbound request received'' NoData))
          \<and> filter is_forward (calls (main cfg rt s event ctx)) = [])"
proof (intro conjI impI)
  assume "map_option http_method (http event) \<noteq> Some ''POST''
            \<or> Events event = EventsAbsent \<or> Events event = EventsNotArray"
  then have "main cfg rt s event ctx
       = \<lparr> returned = Inr \<lparr> statusCode = 200 \<rparr>, timeline = [], store_after = s \<rparr>"
    using main_not_post main_not_array by blast
  then show "returned (main cfg rt s event ctx) = Inr \<lparr> statusCode = 200 \<rparr>"
    and "calls (main cfg rt s event ctx) = []"
    by simp_all
next
  assume a: "map_option http_method (http event) = Some ''POST''
            \<and> Events event = EventsArray r \<and> cells s r = []"
  then have m: "main cfg rt s event ctx =
     \<lparr> returned = Inr \<lparr> statusCode = 200 \<rparr>,
       timeline = snd (logger_debug cfg rt event ctx ''IPC Outbound request received'' NoData),
       store_after = snd (select_outboundEvent s r) \<rparr>"
    using assms by (simp add: main_array_nothing select_empty)
  show "returned (main cfg rt s event ctx) = Inr \<lparr> statusCode = 200 \<rparr>"
    and "calls (main cfg rt s event ctx)
              = issued (snd (logger_debug cfg rt event ctx
                               ''IPC Outbound request received'' NoData))"
    and "filter is_forward (calls (main cfg rt s event ctx)) = []"
    by (simp_all add: m logger_debug_not_forward)
qed

text \<open>
  An authorized GET, an authorized POST without \<open>Events\<close>, and an authorized POST
  with the empty array 2, after which the one request issued is the debug log record.
\<close>

theorem shape_filter_witness:
  "isAuthorizedRequest sample_config
     (sample_event (EventsArray 0)\<lparr> http := Some (sample_http ''Basic dG9rOg=='' ''GET'') \<rparr>)
   \<and> calls (main sample_config sample_runtime sample_store
        (sample_event (EventsArray 0)\<lparr> http := Some (sample_http ''Basic dG9rOg=='' ''GET'') \<rparr>)
        sample_context) = []
   \<and> returned (main sample_config sample_runtime sample_store
        (sample_event (EventsArray 0)\<lparr> http := Some (sample_http ''Basic dG9rOg=='' ''GET'') \<rparr>)
        sample_context) = Inr \<lparr> statusCode = 200 \<rparr>
   \<and> calls (main sample_config sample_runtime sample_store (sample_event EventsAbsent)
        sample_context) = []
   \<and> cells sample_store 2 = []
   \<and> returned (main sample_config sample_runtime sample_store (sample_event (EventsArray 2))
        sample_context) = Inr \<lparr> statusCode = 200 \<rparr>
   \<and> length (calls (main sample_config sample_runtime sample_store (sample_event (EventsArray 2))
        sample_context)) = 1
   \<and> filter is_forward (calls (main sample_config sample_runtime sample_store
        (sample_event (EventsArray 2)) sample_context)) = []"
proof -
  let ?get = "sample_event (EventsArray 0)\<lparr> http := Some (sample_http ''Basic dG9rOg=='' ''GET'') \<rparr>"
  have g: "isAuthorizedRequest sample_config ?get"
    using sample_authorized [of "EventsArray 0"]
    by (simp add: isAuthorizedRequest_def authorization_header_def sample_event_def
        sample_http_def)
  have m: "map_option http_method (http ?get) \<noteq> Some ''POST''"
    by (simp add: sample_http_def)
  have d: "length (issued (snd (logger_debug sample_config sample_runtime
      (sample_event (EventsArray 2)) sample_context ''IPC Outbound request received'' NoData)))
      = 1"
    by (simp add: logger_debug_def log_js_def await_fetch_def sample_config_def
        sample_runtime_def Let_def)
  from shape_filter [where rt = sample_runtime and s = sample_store and ctx = sample_context
        and r = 0, OF g] m
    shape_filter [where rt = sample_runtime and s = sample_store and ctx = sample_context
        and r = 0, OF sample_authorized [of EventsAbsent]]
    shape_filter [where rt = sample_runtime and s = sample_store and ctx = sample_context
        and r = 2, OF sample_authorized [of "EventsArray 2"]] d g
  show ?thesis
    by (simp add: sample_post sample_events sample_cells logger_debug_not_forward)
qed

section \<open>The credentials of the forward call\<close>

text \<open>
  C7. The string \<open>inboundApiAuth\<close> decodes from base64 to exactly the inbound API
  user, a colon and the inbound API password, and every forward call that the handler
  issues carries the header \<open>Authorization: Basic\<close> followed by that string.
\<close>

theorem basic_auth_roundtrip:
  "base64_decode (inboundApiAuth cfg)
     = GARMIN_INBOUND_API_USER cfg @ '':'' @ GARMIN_INBOUND_API_PASS cfg
   \<and> (\<forall>req\<in>set (calls (main cfg rt s event ctx)).
         is_forward req \<longrightarrow>
           map_of (fetch_headers req) ''Authorization'' = Some (''Basic '' @ inboundApiAuth cfg))"
proof
  show "base64_decode (inboundApiAuth cfg)
     = GARMIN_INBOUND_API_USER cfg @ '':'' @ GARMIN_INBOUND_API_PASS cfg"
    by (simp only: inboundApiAuth_def base64_roundtrip)
next
  show "\<forall>req\<in>set (calls (main cfg rt s event ctx)).
         is_forward req \<longrightarrow>
           map_of (fetch_headers req) ''Authorization'' = Some (''Basic '' @ inboundApiAuth cfg)"
  proof (intro ballI impI)
    fix req
    assume "req \<in> set (calls (main cfg rt s event ctx))" and "is_forward req"
    then obtain lbl pt where "req = forwardLocationUpdate cfg rt lbl pt"
      using main_forward_is_forwardLocationUpdate by blast
    then show "map_of (fetch_headers req) ''Authorization'' = Some (''Basic '' @ inboundApiAuth cfg)"
      by (simp add: forwardLocationUpdate_def Let_def)
  qed
qed

text \<open>With the user \<open>user\<close> and the password \<open>pass\<close> the header is \<open>Basic dXNlcjpwYXNz\<close>.\<close>

theorem basic_auth_roundtrip_witness:
  "inboundApiAuth sample_config = ''dXNlcjpwYXNz''
   \<and> base64_decode ''dXNlcjpwYXNz'' = ''user:pass''
   \<and> (\<exists>req\<in>set (calls (main sample_config sample_runtime sample_store
                             (sample_event (EventsArray 0)) sample_context)).
         is_forward req
       \<and> map_of (fetch_headers req) ''Authorization'' = Some ''Basic dXNlcjpwYXNz'')"
proof -
  have enc: "inboundApiAuth sample_config = ''dXNlcjpwYXNz''" by code_simp
  have f: "filter is_forward (calls (main sample_config sample_runtime sample_store
                             (sample_event (EventsArray 0)) sample_context)) \<noteq> []"
    by (simp add: main_array_forward [OF sample_authorized sample_post sample_events
          sample_select(1)] sample_passes sample_report_point)
  then obtain req where r: "req \<in> set (calls (main sample_config sample_runtime sample_store
                             (sample_event (EventsArray 0)) sample_context))" "is_forward req"
    by (auto simp: filter_empty_conv)
  note w = basic_auth_roundtrip [of sample_config sample_runtime sample_store
      "sample_event (EventsArray 0)" sample_context]
  from w r have "map_of (fetch_headers req) ''Authorization'' = Some ''Basic dXNlcjpwYXNz''"
    by (simp add: enc)
  moreover have "base64_decode ''dXNlcjpwYXNz'' = ''user:pass''"
  proof -
    from w have "base64_decode (inboundApiAuth sample_config)
        = GARMIN_INBOUND_API_USER sample_config @ '':'' @ GARMIN_INBOUND_API_PASS sample_config"
      by blast
    then have "base64_decode ''dXNlcjpwYXNz''
        = GARMIN_INBOUND_API_USER sample_config @ '':'' @ GARMIN_INBOUND_API_PASS sample_config"
      by (simp only: enc)
    then show ?thesis by (simp add: sample_config_def)
  qed
  ultimately show ?thesis using enc r by blast
qed

section \<open>The number of outbound calls\<close>

text \<open>
  C8, as the code has it. The outbound calls of one invocation are at most three, in
  this order: first at most one log record, the debug record of line 97; then at
  most one forward POST; last at most one log record, the error record of that forward
  POST, which is written only when the forward call failed (\<open>fetch\<close> threw or the
  response is not \<open>ok\<close>) and which carries what the forward call came to. The calls
  are made one at a time: each has settled when the next is issued, and when the handler
  returns.
\<close>

theorem at_most_three_calls:
  "\<exists>c1 c2 c3. calls (main cfg rt s event ctx) = c1 @ c2 @ c3
      \<and> (c1 = [] \<or> (\<exists>d. c1 = [d] \<and> is_debug_record d))
      \<and> (c2 = [] \<or> (\<exists>f. c2 = [f] \<and> is_forward f))
      \<and> (c3 = [] \<or> (\<exists>f e. c2 = [f] \<and> c3 = [e]
                          \<and> forward_failed rt f \<and> reports_failure rt f e))
      \<and> length (calls (main cfg rt s event ctx)) \<le> 3
      \<and> one_at_a_time (timeline (main cfg rt s event ctx))"
proof -
  let ?c1 = "snd (logger_debug cfg rt event ctx ''IPC Outbound request received'' NoData)"
  note c1 = logger_debug_record [of cfg rt event ctx]
  have seq: "one_at_a_time (timeline (main cfg rt s event ctx))"
  proof (cases rule: main_cases [of cfg rt s event ctx])
    case early
    then show ?thesis by simp
  next
    case (array r)
    show ?thesis
    proof (cases rule: selection_cases [of s r])
      case (throws err)
      then show ?thesis
        by (simp add: main_array_throws [OF array] logger_debug_one_at_a_time)
    next
      case nothing
      then show ?thesis
        by (simp add: main_array_nothing [OF array] logger_debug_one_at_a_time)
    next
      case (event e)
      then show ?thesis
        by (simp add: main_array [OF array] logger_debug_one_at_a_time
            try_forward_one_at_a_time catch_calls_one_at_a_time one_at_a_time_append
            split: option.splits)
    qed
  qed
  obtain c1 c2 c3 where parts: "calls (main cfg rt s event ctx) = c1 @ c2 @ c3"
    and p1: "c1 = [] \<or> (\<exists>d. c1 = [d] \<and> is_debug_record d)"
    and p2: "c2 = [] \<or> (\<exists>f. c2 = [f] \<and> is_forward f)"
    and p3: "c3 = [] \<or> (\<exists>f e. c2 = [f] \<and> c3 = [e]
                          \<and> forward_failed rt f \<and> reports_failure rt f e)"
  proof (cases rule: main_cases [of cfg rt s event ctx])
    case early
    then have "calls (main cfg rt s event ctx) = [] @ [] @ []" by simp
    then show ?thesis using that [of "[]" "[]" "[]"] by simp
  next
    case (array r)
    show ?thesis
    proof (cases "\<exists>e pt. fst (select_outboundEvent s r) = Inr (Some (Obj e))
                    \<and> point e = Some pt \<and> passes_filters cfg e")
      case False
      have "calls (main cfg rt s event ctx) = issued ?c1 @ [] @ []"
      proof (cases rule: selection_cases [of s r])
        case (throws err)
        then show ?thesis by (simp add: main_array_throws [OF array])
      next
        case nothing
        then show ?thesis by (simp add: main_array_nothing [OF array])
      next
        case (event e)
        with False show ?thesis
          by (auto simp: main_array [OF array] split: option.splits)
      qed
      then show ?thesis using that [of "issued ?c1" "[]" "[]"] c1 by simp
    next
      case True
      then obtain e pt where e: "fst (select_outboundEvent s r) = Inr (Some (Obj e))"
          "point e = Some pt" "passes_filters cfg e"
        by blast
      let ?fwd = "forwardLocationUpdate cfg rt (receiverText (messageCode e)) pt"
      obtain c3 where c3:
        "issued (snd (try_forward cfg rt event ctx (messageCode e) pt)
          @ catch_calls cfg rt event ctx (fst (try_forward cfg rt event ctx (messageCode e) pt)))
         = ?fwd # c3"
        "c3 = [] \<or> (\<exists>e'. c3 = [e'] \<and> forward_failed rt ?fwd \<and> reports_failure rt ?fwd e')"
        using try_then_catch [of cfg rt event ctx "messageCode e" pt] by blast
      have "calls (main cfg rt s event ctx) = issued ?c1 @ [?fwd] @ c3"
        using c3(1) by (simp add: main_array [OF array e(1)] e)
      moreover have "[?fwd] = [] \<or> (\<exists>f. [?fwd] = [f] \<and> is_forward f)"
        by (simp add: is_forward_forwardLocationUpdate)
      moreover have "c3 = [] \<or> (\<exists>f e'. [?fwd] = [f] \<and> c3 = [e']
                          \<and> forward_failed rt f \<and> reports_failure rt f e')"
        using c3(2) by simp
      ultimately show ?thesis using that [of "issued ?c1" "[?fwd]" c3] c1 by simp
    qed
  qed
  have "length c1 \<le> 1" using p1 by auto
  moreover have "length c2 \<le> 1" using p2 by auto
  moreover have "length c3 \<le> 1" using p3 by auto
  ultimately have "length (calls (main cfg rt s event ctx)) \<le> 3"
    by (simp add: parts)
  with parts p1 p2 p3 seq show ?thesis
    by (intro exI [of _ c1] exI [of _ c2] exI [of _ c3]) simp
qed

text \<open>
  With the sink configured and the network down, the report of array 0 leads to three
  calls, one at a time: the debug record, the forward POST, which fails, and the error
  record of that failure.
\<close>

theorem at_most_three_calls_witness:
  "\<exists>d f e. calls (main sample_config sample_runtime sample_store
                        (sample_event (EventsArray 0)) sample_context) = [d, f, e]
      \<and> is_debug_record d \<and> is_forward f
      \<and> forward_failed sample_runtime f \<and> reports_failure sample_runtime f e
      \<and> one_at_a_time (timeline (main sample_config sample_runtime sample_store
                                     (sample_event (EventsArray 0)) sample_context))"
proof -
  let ?m = "main sample_config sample_runtime sample_store
              (sample_event (EventsArray 0)) sample_context"
  have three: "length (calls ?m) = 3" by code_simp
  from at_most_three_calls [of sample_config sample_runtime sample_store
      "sample_event (EventsArray 0)" sample_context]
  obtain c1 c2 c3 where parts: "calls ?m = c1 @ c2 @ c3"
    and p1: "c1 = [] \<or> (\<exists>d. c1 = [d] \<and> is_debug_record d)"
    and p2: "c2 = [] \<or> (\<exists>f. c2 = [f] \<and> is_forward f)"
    and p3: "c3 = [] \<or> (\<exists>f e. c2 = [f] \<and> c3 = [e]
                \<and> forward_failed sample_runtime f \<and> reports_failure sample_runtime f e)"
    and seq: "one_at_a_time (timeline ?m)"
    by blast
  have "length c1 \<le> 1" using p1 by auto
  moreover have "length c2 \<le> 1" using p2 by auto
  moreover have "length c3 \<le> 1" using p3 by auto
  moreover have "length c1 + length c2 + length c3 = 3" using three parts by simp
  ultimately have ne: "c1 \<noteq> []" "c2 \<noteq> []" "c3 \<noteq> []" by auto
  from p1 ne(1) obtain d where d: "c1 = [d]" "is_debug_record d" by blast
  from p3 ne(3) obtain f e where fe: "c2 = [f]" "c3 = [e]"
      "forward_failed sample_runtime f" "reports_failure sample_runtime f e" by blast
  from p2 fe(1) have "is_forward f" by simp
  with parts d fe seq show ?thesis by simp
qed

text \<open>Two is not a bound: the same invocation makes three calls.\<close>

theorem three_calls_counterexample:
  "\<not> length (calls (main sample_config sample_runtime sample_store
                      (sample_event (EventsArray 0)) sample_context)) \<le> 2"
  by code_simp

section \<open>The input is not mutated\<close>

text \<open>
  C9. The handler writes to no array that existed when it was called: every allocated
  array, the one behind \<open>Events\<close> among them, has the same elements in the same order
  when the handler returns. Sorting and \<open>pop\<close> act on the copy made by the spread,
  which is a new array. The event object itself is only read; the model passes it by
  value.
\<close>

theorem input_events_unchanged:
  "\<forall>r<next_free s. cells (store_after (main cfg rt s event ctx)) r = cells s r"
proof (cases rule: main_cases [of cfg rt s event ctx])
  case early
  then show ?thesis by simp
next
  case (array r)
  then show ?thesis by (simp add: main_array_store select_snd_cells)
qed

text \<open>
  Array 1 is as it was, while the copy, at the next free reference 6, was sorted and
  lost its last element.
\<close>

theorem input_events_unchanged_witness:
  "Events (sample_event (EventsArray 1)) = EventsArray 1
   \<and> 1 < next_free sample_store
   \<and> cells sample_store 1 = [Obj sample_report, Obj sample_other]
   \<and> cells (store_after (main sample_config sample_runtime sample_store
                            (sample_event (EventsArray 1)) sample_context)) 1
       = [Obj sample_report, Obj sample_other]
   \<and> cells (store_after (main sample_config sample_runtime sample_store
                            (sample_event (EventsArray 1)) sample_context)) 6
       = [Obj sample_report]"
proof -
  have n: "next_free sample_store = 6" by (simp add: sample_store_def)
  have c: "cells (store_after (main sample_config sample_runtime sample_store
                            (sample_event (EventsArray 1)) sample_context)) 6
       = [Obj sample_report]"
    using select_snd_copy [OF sample_cells(2)]
    by (simp add: main_array_store [OF sample_authorized sample_post sample_events] n
        sample_report_def sample_other_def)
  have one: "cells sample_store 1 = [Obj sample_report, Obj sample_other]"
    using sample_cells(2) by simp
  from input_events_unchanged [of sample_store sample_config sample_runtime
      "sample_event (EventsArray 1)" sample_context] c one
  show ?thesis by (simp add: n sample_events)
qed

section \<open>The scheme of the header is ignored\<close>

text \<open>
  C10. The scheme is not examined. When the header is a scheme, a space and a token
  \<open>t\<close> that decodes to the configured token followed by a colon, with nothing after
  \<open>t\<close> or with further parts after another space, the request is authorized whatever
  the scheme is. The scheme and \<open>t\<close> are parts of the split: they hold no space.
\<close>

theorem scheme_ignored:
  assumes "scheme \<noteq> []"
    and "CHR '' '' \<notin> set scheme"
    and "CHR '' '' \<notin> set t"
    and "utf8_toString (base64_decode t) = REQUEST_AUTH_TOKEN cfg @ '':''"
    and "rest = [] \<or> (\<exists>more. rest = CHR '' '' # more)"
    and "authorization_header event = Some (scheme @ '' '' @ t @ rest)"
  shows "isAuthorizedRequest cfg event"
proof -
  have t: "t \<noteq> []" using assms(4) utf8_decode_Nil by auto
  have "\<exists>ps. split_on (CHR '' '') (t @ rest) = t # ps"
    using assms(3,5) by (auto simp: split_on_no_sep split_on_append)
  then obtain ps where "split_on (CHR '' '') (scheme @ '' '' @ t @ rest) = scheme # t # ps"
    using assms(2) by (auto simp: split_on_append)
  then have "second_part (scheme @ '' '' @ t @ rest) = Some t"
    by (simp add: second_part_def)
  with assms(1,4,6) t show ?thesis
    by (simp add: isAuthorizedRequest_def)
qed

text \<open>The scheme \<open>Bearer\<close>, with two more parts after the token.\<close>

theorem scheme_ignored_witness:
  "utf8_toString (base64_decode ''dG9rOg=='') = REQUEST_AUTH_TOKEN sample_config @ '':''
   \<and> isAuthorizedRequest sample_config
        \<lparr> http = Some (sample_http ''Bearer dG9rOg== and more'' ''POST''),
          Version = None, Events = EventsAbsent \<rparr>"
proof -
  have d: "utf8_toString (base64_decode ''dG9rOg=='') = REQUEST_AUTH_TOKEN sample_config @ '':''"
    by code_simp
  have "isAuthorizedRequest sample_config
        \<lparr> http = Some (sample_http ''Bearer dG9rOg== and more'' ''POST''),
          Version = None, Events = EventsAbsent \<rparr>"
    by (rule scheme_ignored [where scheme = "''Bearer''" and t = "''dG9rOg==''"
          and rest = "'' and more''", OF _ _ _ d])
       (simp_all add: authorization_header_def sample_http_def)
  with d show ?thesis by simp
qed

end
